theory Spec2Isabelle
  imports Complex_Main
begin

section \<open>Data model\<close>

text \<open>
  Python integers are unbounded, so sizes, layer indices and offsets are \<open>int\<close>.
  A shape is the tuple of dimensions the shape calculator returns.  The packed
  parameter buffer is a one-dimensional array, modelled as a list.  An array
  that results from \<open>reshape\<close> carries its shape next to its elements in
  row-major order.
\<close>

type_synonym shape = "int list"

record 'a ndarray =
  dims :: "nat list"
  elems :: "'a list"

text \<open>Errors raised by the array library and by Python containers.\<close>

datatype lib_error =
  TypeError | ValueError | IndexError | KeyError | NameError | InconclusiveDimensionOperation

section \<open>Python and array-library primitives\<close>

text \<open>\<open>jax._src.util.prod\<close>: the product of a tuple, starting from 1.\<close>

definition prod_shape :: "shape \<Rightarrow> int" where
  "prod_shape s = foldl (*) 1 s"

text \<open>\<open>range(n)\<close>: empty when \<open>n \<le> 0\<close>.\<close>

definition py_range :: "int \<Rightarrow> int list" where
  "py_range n = map int [0..<nat n]"

text \<open>
  \<open>xs[a:b]\<close> on a one-dimensional array: a negative bound counts from the
  end, and both bounds are clipped to the array.
\<close>

definition slice_bound :: "int \<Rightarrow> int \<Rightarrow> nat" where
  "slice_bound n i = (if i < 0 then nat (max (i + n) 0) else nat (min i n))"

definition py_slice :: "'a list \<Rightarrow> int \<Rightarrow> int \<Rightarrow> 'a list" where
  "py_slice xs a b =
     (let n = int (length xs); lo = slice_bound n a; hi = slice_bound n b
      in take (hi - lo) (drop lo xs))"

text \<open>
  \<open>a.reshape(shape)\<close> on a one-dimensional array.  With non-negative
  dimensions the product must equal the number of elements.  A single
  dimension \<open>-1\<close> is inferred from the others, whose product must be
  positive and divide the number of elements; when it does not, the library
  raises \<open>InconclusiveDimensionOperation\<close>.  Anything else is an error.
\<close>

definition reshape :: "'a list \<Rightarrow> shape \<Rightarrow> lib_error + 'a ndarray" where
  "reshape xs s =
     (if \<forall>d \<in> set s. 0 \<le> d then
        (if prod_shape s = int (length xs)
         then Inr \<lparr>dims = map nat s, elems = xs\<rparr> else Inl TypeError)
      else if length (filter (\<lambda>d. d < 0) s) = 1 \<and> (-1) \<in> set s then
        (let p = prod_shape (filter (\<lambda>d. 0 \<le> d) s) in
         if 0 < p \<and> int (length xs) mod p = 0
         then Inr \<lparr>dims = map (\<lambda>d. if d < 0 then nat (int (length xs) div p) else nat d) s,
                   elems = xs\<rparr>
         else Inl InconclusiveDimensionOperation)
      else Inl TypeError)"

section \<open>Shape calculator\<close>

definition W_ih_l :: "int \<Rightarrow> int \<Rightarrow> int \<Rightarrow> bool \<Rightarrow> shape" where
  "W_ih_l layer_i input_size hidden_size bidirectional =
     (if layer_i = 0 \<or> (layer_i = 1 \<and> bidirectional)
      then [4 * hidden_size, input_size]
      else (let num_directions = (if bidirectional then 2 else 1)
            in [4 * hidden_size, num_directions * hidden_size]))"

definition W_hh_l :: "int \<Rightarrow> int \<Rightarrow> int \<Rightarrow> bool \<Rightarrow> shape" where
  "W_hh_l layer_i input_size hidden_size bidirectional = [4 * hidden_size, hidden_size]"

definition b_ih_l :: "int \<Rightarrow> int \<Rightarrow> int \<Rightarrow> bool \<Rightarrow> shape" where
  "b_ih_l layer_i input_size hidden_size bidirectional = [4 * hidden_size]"

definition b_hh_l :: "int \<Rightarrow> int \<Rightarrow> int \<Rightarrow> bool \<Rightarrow> shape" where
  "b_hh_l layer_i input_size hidden_size bidirectional = [4 * hidden_size]"

text \<open>
  The two nested loops of \<open>_get_params_shapes_in_lstm\<close>: for every
  pseudo-layer, one shape per weight kind, appended in order.
\<close>

definition kind_shapes ::
  "(int \<Rightarrow> int \<Rightarrow> int \<Rightarrow> bool \<Rightarrow> shape) list \<Rightarrow> int \<Rightarrow> int \<Rightarrow> int \<Rightarrow> bool \<Rightarrow> shape list" where
  "kind_shapes kinds num_pseudo_layers input_size hidden_size bidirectional =
     concat (map (\<lambda>i. map (\<lambda>w_kind. w_kind i input_size hidden_size bidirectional) kinds)
                 (py_range num_pseudo_layers))"

definition get_params_shapes_in_lstm :: "int \<Rightarrow> int \<Rightarrow> int \<Rightarrow> bool \<Rightarrow> shape list" where
  "get_params_shapes_in_lstm input_size hidden_size num_layers bidirectional =
     (let num_directions = (if bidirectional then 2 else 1);
          num_pseudo_layers = num_layers * num_directions;
          linear_weights = [W_ih_l, W_hh_l];
          bias_weights = [b_ih_l, b_hh_l]
      in kind_shapes linear_weights num_pseudo_layers input_size hidden_size bidirectional
       @ kind_shapes bias_weights num_pseudo_layers input_size hidden_size bidirectional)"

definition get_num_params_in_lstm :: "int \<Rightarrow> int \<Rightarrow> int \<Rightarrow> bool \<Rightarrow> int" where
  "get_num_params_in_lstm input_size hidden_size num_layers bidirectional =
     (let layer_shapes = get_params_shapes_in_lstm input_size hidden_size num_layers bidirectional
      in sum_list (map prod_shape layer_shapes))"

section \<open>Weight unpacker\<close>

text \<open>
  The running state of \<open>unpack_lstm_weights\<close>: the index into the shape
  list, the element offset into the buffer, and the bounds of every slice
  expression evaluated so far (kept only so that properties of the slices
  can be stated; the code does not store them).
\<close>

record cursor =
  flat_shapes_offset :: nat
  w_offsets :: int
  slices :: "(int \<times> int) list"

text \<open>
  The body of the inner loops: read the next shape, cut
  \<open>weights[w_offsets : w_offsets + num_elems]\<close>, reshape it, advance.
\<close>

definition take_param ::
  "'a list \<Rightarrow> shape list \<Rightarrow> cursor \<Rightarrow> lib_error + ('a ndarray \<times> cursor)" where
  "take_param weights flat_shapes cur =
     (if flat_shapes_offset cur < length flat_shapes then
        (let shape = flat_shapes ! flat_shapes_offset cur;
             num_elems = prod_shape shape
         in case reshape (py_slice weights (w_offsets cur) (w_offsets cur + num_elems)) shape of
              Inl e \<Rightarrow> Inl e
            | Inr a \<Rightarrow> Inr (a, \<lparr>flat_shapes_offset = flat_shapes_offset cur + 1,
                               w_offsets = w_offsets cur + num_elems,
                               slices = slices cur @ [(w_offsets cur, w_offsets cur + num_elems)]\<rparr>))
      else Inl IndexError)"

text \<open>
  One of the two outer loops: for each pseudo-layer \<open>l\<close> the first
  dictionary, then the second, receives the next parameter under key \<open>l\<close>.
\<close>

fun unpack_loop ::
  "'a list \<Rightarrow> shape list \<Rightarrow> int list \<Rightarrow> cursor \<Rightarrow> (int \<rightharpoonup> 'a ndarray) \<Rightarrow> (int \<rightharpoonup> 'a ndarray)
   \<Rightarrow> lib_error + (cursor \<times> (int \<rightharpoonup> 'a ndarray) \<times> (int \<rightharpoonup> 'a ndarray))" where
  "unpack_loop weights flat_shapes [] cur d1 d2 = Inr (cur, d1, d2)"
| "unpack_loop weights flat_shapes (l # ls) cur d1 d2 =
     (case take_param weights flat_shapes cur of
        Inl e \<Rightarrow> Inl e
      | Inr (a, cur1) \<Rightarrow>
          (case take_param weights flat_shapes cur1 of
             Inl e \<Rightarrow> Inl e
           | Inr (b, cur2) \<Rightarrow>
               unpack_loop weights flat_shapes ls cur2 (d1(l \<mapsto> a)) (d2(l \<mapsto> b))))"

type_synonym 'a lstm_weights =
  "(int \<rightharpoonup> 'a ndarray) \<times> (int \<rightharpoonup> 'a ndarray) \<times> (int \<rightharpoonup> 'a ndarray) \<times> (int \<rightharpoonup> 'a ndarray)"

definition unpack_lstm_weights_run ::
  "'a list \<Rightarrow> int \<Rightarrow> int \<Rightarrow> int \<Rightarrow> bool \<Rightarrow> lib_error + ('a lstm_weights \<times> cursor)" where
  "unpack_lstm_weights_run weights input_size hidden_size num_layers bidirectional =
     (let flat_shapes = get_params_shapes_in_lstm input_size hidden_size num_layers bidirectional;
          num_directions = (if bidirectional then 2 else 1);
          num_pseudo_layers = num_layers * num_directions;
          cur0 = \<lparr>flat_shapes_offset = 0, w_offsets = 0, slices = []\<rparr>
      in case unpack_loop weights flat_shapes (py_range num_pseudo_layers) cur0 Map.empty Map.empty of
           Inl e \<Rightarrow> Inl e
         | Inr (cur1, W_ih, W_hh) \<Rightarrow>
             (case unpack_loop weights flat_shapes (py_range num_pseudo_layers) cur1
                     Map.empty Map.empty of
                Inl e \<Rightarrow> Inl e
              | Inr (cur2, b_ih, b_hh) \<Rightarrow> Inr ((W_ih, W_hh, b_ih, b_hh), cur2)))"

text \<open>What the function returns: the four dictionaries.\<close>

definition unpack_lstm_weights ::
  "'a list \<Rightarrow> int \<Rightarrow> int \<Rightarrow> int \<Rightarrow> bool \<Rightarrow> lib_error + 'a lstm_weights" where
  "unpack_lstm_weights weights input_size hidden_size num_layers bidirectional =
     map_sum id fst
       (unpack_lstm_weights_run weights input_size hidden_size num_layers bidirectional)"

section \<open>Re-flattening and slice bookkeeping\<close>

text \<open>
  The inverse direction of the round-trip property: the arrays of two
  dictionaries, flattened row-major and concatenated pseudo-layer by
  pseudo-layer, first dictionary before second.  The source has no packing
  function; this one follows the wording of the round-trip property.
\<close>

fun flatten_pairs ::
  "(int \<rightharpoonup> 'a ndarray) \<Rightarrow> (int \<rightharpoonup> 'a ndarray) \<Rightarrow> int list \<Rightarrow> lib_error + 'a list" where
  "flatten_pairs d1 d2 [] = Inr []"
| "flatten_pairs d1 d2 (l # ls) =
     (case d1 l of
        None \<Rightarrow> Inl KeyError
      | Some a \<Rightarrow>
          (case d2 l of
             None \<Rightarrow> Inl KeyError
           | Some b \<Rightarrow>
               (case flatten_pairs d1 d2 ls of
                  Inl e \<Rightarrow> Inl e
                | Inr r \<Rightarrow> Inr (elems a @ elems b @ r))))"

text \<open>Linear weights of all pseudo-layers first, then the biases.\<close>

definition pack_lstm_weights ::
  "'a lstm_weights \<Rightarrow> int \<Rightarrow> bool \<Rightarrow> lib_error + 'a list" where
  "pack_lstm_weights ws num_layers bidirectional =
     (case ws of (W_ih, W_hh, b_ih, b_hh) \<Rightarrow>
        (let num_pseudo_layers = num_layers * (if bidirectional then 2 else 1) in
         case flatten_pairs W_ih W_hh (py_range num_pseudo_layers) of
           Inl e \<Rightarrow> Inl e
         | Inr lin_part \<Rightarrow>
             (case flatten_pairs b_ih b_hh (py_range num_pseudo_layers) of
                Inl e \<Rightarrow> Inl e
              | Inr bias_part \<Rightarrow> Inr (lin_part @ bias_part))))"

text \<open>
  A list of slice bounds tiles the interval from \<open>a\<close> to \<open>b\<close>: the first slice
  starts at \<open>a\<close>, each one starts where the one before ends, the last ends at \<open>b\<close>.
\<close>

fun tiling :: "int \<Rightarrow> (int \<times> int) list \<Rightarrow> int \<Rightarrow> bool" where
  "tiling a [] b = (a = b)"
| "tiling a ((s, e) # r) b = (s = a \<and> s \<le> e \<and> tiling e r b)"

text \<open>Shapes without negative dimensions.\<close>

definition valid_shapes :: "shape list \<Rightarrow> bool" where
  "valid_shapes fs = (\<forall>s \<in> set fs. \<forall>d \<in> set s. 0 \<le> d)"

text \<open>The sum of the element counts of \<open>k\<close> shapes from position \<open>i\<close> on.\<close>

definition cost :: "shape list \<Rightarrow> nat \<Rightarrow> nat \<Rightarrow> int" where
  "cost fs i k = sum_list (map prod_shape (take k (drop i fs)))"

section \<open>Reference LSTM: arrays and the array runtime\<close>

text \<open>
  The reference engine works on arrays of rank one, two and three, modelled
  as lists, lists of rows, and lists of matrices.  A nested list stands for
  an array only when it is rectangular, and it cannot keep the inner
  dimensions of an array one of whose outer dimensions is zero.

  The scalar type and the scalar operations of the runtime are parameters,
  so that nothing is assumed about floating-point arithmetic: addition,
  multiplication, the two activation functions, and the inner product of two
  vectors of equal length, which is what one entry of a matrix product is.
  A runtime stands for the scalar arithmetic of one compiled call of
  \<open>lstm_ref\<close>.  Calls compiled for different static arguments, such as a
  different number of layers, may round differently in floating point, so
  no theorem below equates the results of two such calls.
\<close>

type_synonym 'a vec = "'a list"
type_synonym 'a mat = "'a list list"
type_synonym 'a seq = "'a list list list"

record 'a runtime =
  rt_add :: "'a \<Rightarrow> 'a \<Rightarrow> 'a"
  rt_mul :: "'a \<Rightarrow> 'a \<Rightarrow> 'a"
  rt_sigmoid :: "'a \<Rightarrow> 'a"
  rt_tanh :: "'a \<Rightarrow> 'a"
  rt_dot :: "'a vec \<Rightarrow> 'a vec \<Rightarrow> 'a"

text \<open>Real arithmetic as one such runtime; \<open>jax.nn.sigmoid\<close> is the logistic function.\<close>

definition sigmoid_real :: "real \<Rightarrow> real" where
  "sigmoid_real z = 1 / (1 + exp (- z))"

definition real_runtime :: "real runtime" where
  "real_runtime = \<lparr>rt_add = (+), rt_mul = (*), rt_sigmoid = sigmoid_real, rt_tanh = tanh,
                    rt_dot = (\<lambda>u v. sum_list (map2 (*) u v))\<rparr>"

text \<open>Sequencing of computations that may raise.\<close>

definition bind_res :: "'e + 'a \<Rightarrow> ('a \<Rightarrow> 'e + 'b) \<Rightarrow> 'e + 'b" where
  "bind_res m f = (case m of Inl e \<Rightarrow> Inl e | Inr v \<Rightarrow> f v)"

fun sequence_res :: "('e + 'a) list \<Rightarrow> 'e + 'a list" where
  "sequence_res [] = Inr []"
| "sequence_res (m # ms) =
     bind_res m (\<lambda>v. bind_res (sequence_res ms) (\<lambda>vs. Inr (v # vs)))"

text \<open>
  An elementwise binary operation with broadcasting: along an axis the two
  sizes are equal, or one of them is 1 and that operand is repeated.
\<close>

definition broadcast1 :: "('a \<Rightarrow> 'a \<Rightarrow> 'a) \<Rightarrow> 'a vec \<Rightarrow> 'a vec \<Rightarrow> lib_error + 'a vec" where
  "broadcast1 f u v =
     (if length u = length v then Inr (map2 f u v)
      else if length u = 1 then Inr (map (f (hd u)) v)
      else if length v = 1 then Inr (map (\<lambda>a. f a (hd v)) u)
      else Inl TypeError)"

definition broadcast2 :: "('a \<Rightarrow> 'a \<Rightarrow> 'a) \<Rightarrow> 'a mat \<Rightarrow> 'a mat \<Rightarrow> lib_error + 'a mat" where
  "broadcast2 f A B =
     (if length A = length B then sequence_res (map2 (broadcast1 f) A B)
      else if length A = 1 then sequence_res (map (broadcast1 f (hd A)) B)
      else if length B = 1 then sequence_res (map (\<lambda>u. broadcast1 f u (hd B)) A)
      else Inl TypeError)"

text \<open>
  \<open>x @ W.T\<close>: entry \<open>(b, j)\<close> is the inner product of row \<open>b\<close> of \<open>x\<close> with
  row \<open>j\<close> of \<open>W\<close>; the rows must have the same length.
\<close>

definition matmul_nt :: "'a runtime \<Rightarrow> 'a mat \<Rightarrow> 'a mat \<Rightarrow> lib_error + 'a mat" where
  "matmul_nt rt x W =
     (if \<forall>r \<in> set x. \<forall>w \<in> set W. length r = length w
      then Inr (map (\<lambda>r. map (\<lambda>w. rt_dot rt r w) W) x)
      else Inl TypeError)"

text \<open>
  \<open>jnp.split(a, 4, axis=0)\<close>, unpacked into four names: four consecutive
  blocks of equal size along the first axis, which 4 must divide.
\<close>

definition jnp_split4 :: "'a list \<Rightarrow> lib_error + ('a list \<times> 'a list \<times> 'a list \<times> 'a list)" where
  "jnp_split4 a =
     (if length a mod 4 = 0 then
        (let k = length a div 4
         in Inr (take k a, take k (drop k a), take k (drop (2 * k) a), take k (drop (3 * k) a)))
      else Inl ValueError)"

text \<open>
  \<open>a[l]\<close> on an array with a Python integer: a negative index counts from
  the end, and JAX clamps an index that is out of bounds to the array
  (\<open>jnp.arange(10)[11]\<close> is 9); an axis of size 0 cannot be indexed.
\<close>

definition jnp_index :: "'a list \<Rightarrow> int \<Rightarrow> lib_error + 'a" where
  "jnp_index a l =
     (if a = [] then Inl IndexError
      else (let n = int (length a); j = (if l < 0 then l + n else l)
            in Inr (a ! nat (max 0 (min j (n - 1))))))"

text \<open>\<open>d[l]\<close> on a dictionary.\<close>

definition dict_get :: "('k \<rightharpoonup> 'v) \<Rightarrow> 'k \<Rightarrow> lib_error + 'v" where
  "dict_get d l = (case d l of None \<Rightarrow> Inl KeyError | Some v \<Rightarrow> Inr v)"

text \<open>
  \<open>a.transpose(1, 0, 2)\<close>: the first two axes change places.  The model is
  exact on an array whose first two axes are not empty; on an array without
  time steps the nested list cannot keep the batch axis.
\<close>

definition transpose_102 :: "'a seq \<Rightarrow> 'a seq" where
  "transpose_102 a = transpose a"

text \<open>\<open>jnp.concatenate([a, b], axis=-1)\<close>: the other two axes must agree.\<close>

definition concatenate_last :: "'a seq \<Rightarrow> 'a seq \<Rightarrow> lib_error + 'a seq" where
  "concatenate_last a b =
     (if map length a = map length b
      then Inr (map2 (map2 (@)) a b) else Inl TypeError)"

text \<open>The shape of a matrix, as far as a list of rows shows it.\<close>

definition same_shape :: "'a mat \<Rightarrow> 'a mat \<Rightarrow> bool" where
  "same_shape A B = (map length A = map length B)"

text \<open>\<open>jnp.stack(xs)\<close>: at least one array, all of one shape.\<close>

definition jnp_stack :: "'a mat list \<Rightarrow> lib_error + 'a mat list" where
  "jnp_stack xs =
     (if xs = [] then Inl ValueError
      else if \<forall>m \<in> set xs. same_shape m (hd xs) then Inr xs
      else Inl ValueError)"

text \<open>
  \<open>jax.lax.scan(f, init, xs, reverse)\<close> with a carry \<open>(h, c)\<close>: \<open>f\<close> is
  applied along the leading axis of \<open>xs\<close>, from the last entry to the first
  when \<open>reverse\<close> is set; the outputs are stacked in the order of \<open>xs\<close>
  either way.  The carry that \<open>f\<close> returns must have the shape of the
  carry it was given.  On an empty \<open>xs\<close> the model does not apply \<open>f\<close>
  at all, whereas JAX still traces it once to learn the output shape.
\<close>

type_synonym 'a carry = "'a mat \<times> 'a mat"

fun scan_forward ::
  "('a carry \<Rightarrow> 'a mat \<Rightarrow> lib_error + ('a carry \<times> 'a mat)) \<Rightarrow> 'a carry \<Rightarrow> 'a seq
   \<Rightarrow> lib_error + ('a carry \<times> 'a seq)" where
  "scan_forward f carry [] = Inr (carry, [])"
| "scan_forward f carry (x # xs) =
     bind_res (f carry x) (\<lambda>(carry', y).
       if same_shape (fst carry') (fst carry) \<and> same_shape (snd carry') (snd carry)
       then bind_res (scan_forward f carry' xs) (\<lambda>(final, ys). Inr (final, y # ys))
       else Inl TypeError)"

definition lax_scan ::
  "('a carry \<Rightarrow> 'a mat \<Rightarrow> lib_error + ('a carry \<times> 'a mat)) \<Rightarrow> 'a carry \<Rightarrow> 'a seq \<Rightarrow> bool
   \<Rightarrow> lib_error + ('a carry \<times> 'a seq)" where
  "lax_scan f init xs reverse =
     (if reverse
      then bind_res (scan_forward f init (rev xs)) (\<lambda>(final, ys). Inr (final, rev ys))
      else scan_forward f init xs)"

section \<open>Reference LSTM\<close>

text \<open>
  The expression that the four gate lines of \<open>lstm_cell\<close> share:
  \<open>x @ W_i.T + b_i[None] + h @ W_h.T + b_h[None]\<close>, evaluated left to right.
\<close>

definition gate_input ::
  "'a runtime \<Rightarrow> 'a mat \<Rightarrow> 'a mat \<Rightarrow> 'a vec \<Rightarrow> 'a mat \<Rightarrow> 'a mat \<Rightarrow> 'a vec \<Rightarrow> lib_error + 'a mat" where
  "gate_input rt x W_i b_i h W_h b_h =
     bind_res (matmul_nt rt x W_i) (\<lambda>xw.
     bind_res (broadcast2 (rt_add rt) xw [b_i]) (\<lambda>s1.
     bind_res (matmul_nt rt h W_h) (\<lambda>hw.
     bind_res (broadcast2 (rt_add rt) s1 hw) (\<lambda>s2.
     broadcast2 (rt_add rt) s2 [b_h]))))"

definition lstm_cell ::
  "'a runtime \<Rightarrow> 'a mat \<Rightarrow> 'a mat \<Rightarrow> 'a vec \<Rightarrow> 'a vec \<Rightarrow> 'a carry \<Rightarrow> 'a mat
   \<Rightarrow> lib_error + ('a carry \<times> 'a mat)" where
  "lstm_cell rt W_ih W_hh b_ih b_hh carry x =
     (case carry of (h, c) \<Rightarrow>
      bind_res (jnp_split4 W_ih) (\<lambda>(W_ii, W_if, W_ig, W_io).
      bind_res (jnp_split4 W_hh) (\<lambda>(W_hi, W_hf, W_hg, W_ho).
      bind_res (jnp_split4 b_ih) (\<lambda>(b_ii, b_if, b_ig, b_io).
      bind_res (jnp_split4 b_hh) (\<lambda>(b_hi, b_hf, b_hg, b_ho).
      bind_res (gate_input rt x W_ii b_ii h W_hi b_hi) (\<lambda>zi.
      let i_t = map (map (rt_sigmoid rt)) zi in
      bind_res (gate_input rt x W_if b_if h W_hf b_hf) (\<lambda>zf.
      let f_t = map (map (rt_sigmoid rt)) zf in
      bind_res (gate_input rt x W_ig b_ig h W_hg b_hg) (\<lambda>zg.
      let g_t = map (map (rt_tanh rt)) zg in
      bind_res (gate_input rt x W_io b_io h W_ho b_ho) (\<lambda>zo.
      let o_t = map (map (rt_sigmoid rt)) zo in
      bind_res (broadcast2 (rt_mul rt) f_t c) (\<lambda>fc.
      bind_res (broadcast2 (rt_mul rt) i_t g_t) (\<lambda>ig.
      bind_res (broadcast2 (rt_add rt) fc ig) (\<lambda>c'.
      bind_res (broadcast2 (rt_mul rt) o_t (map (map (rt_tanh rt)) c')) (\<lambda>h'.
      Inr ((h', c'), h'))))))))))))))"

text \<open>
  \<open>partial(lstm_cell, W_ih=W_ih[l], ...)\<close> and the initial carry
  \<open>(h_0[l], c_0[l])\<close>, looked up in the order the code looks them up.
\<close>

type_synonym 'a weight_dicts =
  "(int \<rightharpoonup> 'a mat) \<times> (int \<rightharpoonup> 'a mat) \<times> (int \<rightharpoonup> 'a vec) \<times> (int \<rightharpoonup> 'a vec)"

definition layer_scan ::
  "'a runtime \<Rightarrow> 'a seq \<Rightarrow> 'a seq \<Rightarrow> 'a weight_dicts \<Rightarrow> int \<Rightarrow> 'a seq \<Rightarrow> bool
   \<Rightarrow> lib_error + ('a carry \<times> 'a seq)" where
  "layer_scan rt h_0 c_0 params l seq_first_y reverse =
     (case params of (W_ih, W_hh, b_ih, b_hh) \<Rightarrow>
      bind_res (dict_get W_ih l) (\<lambda>W_ih_l.
      bind_res (dict_get W_hh l) (\<lambda>W_hh_l.
      bind_res (dict_get b_ih l) (\<lambda>b_ih_l.
      bind_res (dict_get b_hh l) (\<lambda>b_hh_l.
      bind_res (jnp_index h_0 l) (\<lambda>h_0_l.
      bind_res (jnp_index c_0 l) (\<lambda>c_0_l.
      lax_scan (lstm_cell rt W_ih_l W_hh_l b_ih_l b_hh_l) (h_0_l, c_0_l) seq_first_y reverse)))))))"

text \<open>The loop over the layers of a unidirectional network.\<close>

fun layers_loop ::
  "'a runtime \<Rightarrow> 'a seq \<Rightarrow> 'a seq \<Rightarrow> 'a weight_dicts \<Rightarrow> int list
   \<Rightarrow> 'a seq \<times> 'a mat list \<times> 'a mat list
   \<Rightarrow> lib_error + ('a seq \<times> 'a mat list \<times> 'a mat list)" where
  "layers_loop rt h_0 c_0 params [] st = Inr st"
| "layers_loop rt h_0 c_0 params (l # ls) st =
     (case st of (seq_first_y, final_h, final_c) \<Rightarrow>
      bind_res (layer_scan rt h_0 c_0 params l seq_first_y False) (\<lambda>((h_t, c_t), ys).
      layers_loop rt h_0 c_0 params ls (ys, final_h @ [h_t], final_c @ [c_t])))"

text \<open>
  The loop over the pseudo-layers of a bidirectional network.  An even
  pseudo-layer scans forward and keeps its outputs in \<open>seq_first_y_fwd\<close>;
  the odd one after it scans the same input in reverse and replaces the
  input by the concatenation of the two outputs.  \<open>seq_first_y_fwd\<close> is
  unbound until the first even pseudo-layer has run.
\<close>

fun bidirectional_loop ::
  "'a runtime \<Rightarrow> 'a seq \<Rightarrow> 'a seq \<Rightarrow> 'a weight_dicts \<Rightarrow> int list
   \<Rightarrow> 'a seq \<times> 'a seq option \<times> 'a mat list \<times> 'a mat list
   \<Rightarrow> lib_error + ('a seq \<times> 'a seq option \<times> 'a mat list \<times> 'a mat list)" where
  "bidirectional_loop rt h_0 c_0 params [] st = Inr st"
| "bidirectional_loop rt h_0 c_0 params (l # ls) st =
     (case st of (seq_first_y, seq_first_y_fwd, final_h, final_c) \<Rightarrow>
      if l mod 2 = 0 then
        bind_res (layer_scan rt h_0 c_0 params l seq_first_y False) (\<lambda>((h_t, c_t), ys).
        bidirectional_loop rt h_0 c_0 params ls
          (seq_first_y, Some ys, final_h @ [h_t], final_c @ [c_t]))
      else
        bind_res (layer_scan rt h_0 c_0 params l seq_first_y True) (\<lambda>((h_t, c_t), seq_first_y_bwd).
        bind_res (case seq_first_y_fwd of None \<Rightarrow> Inl NameError | Some fwd \<Rightarrow> Inr fwd) (\<lambda>fwd.
        bind_res (concatenate_last fwd seq_first_y_bwd) (\<lambda>seq_first_y'.
        bidirectional_loop rt h_0 c_0 params ls
          (seq_first_y', seq_first_y_fwd, final_h @ [h_t], final_c @ [c_t])))))"

text \<open>Everything in \<open>lstm_ref\<close> after the dropout check.\<close>

definition lstm_ref_run ::
  "'a runtime \<Rightarrow> 'a seq \<Rightarrow> 'a seq \<Rightarrow> 'a seq \<Rightarrow> 'a weight_dicts \<Rightarrow> int \<Rightarrow> bool
   \<Rightarrow> lib_error + ('a seq \<times> 'a seq \<times> 'a seq)" where
  "lstm_ref_run rt x h_0 c_0 params num_layers bidirectional =
     (let seq_first_y = transpose_102 x in
      if \<not> bidirectional then
        bind_res (layers_loop rt h_0 c_0 params (py_range num_layers) (seq_first_y, [], []))
          (\<lambda>(seq_first_y, final_h, final_c).
        bind_res (jnp_stack final_h) (\<lambda>h_n.
        bind_res (jnp_stack final_c) (\<lambda>c_n.
        Inr (transpose_102 seq_first_y, h_n, c_n))))
      else
        bind_res (bidirectional_loop rt h_0 c_0 params (py_range (num_layers * 2))
                    (seq_first_y, None, [], []))
          (\<lambda>(seq_first_y, seq_first_y_fwd, final_h, final_c).
        bind_res (jnp_stack final_h) (\<lambda>h_n.
        bind_res (jnp_stack final_c) (\<lambda>c_n.
        Inr (transpose_102 seq_first_y, h_n, c_n)))))"

text \<open>
  \<open>lstm_ref\<close> raises \<open>NotImplementedError\<close> itself; every other error
  comes out of the library calls below the check.
\<close>

datatype error = NotImplementedError | Raised lib_error

definition lstm_ref ::
  "'a runtime \<Rightarrow> 'a seq \<Rightarrow> 'a seq \<Rightarrow> 'a seq
   \<Rightarrow> (int \<rightharpoonup> 'a mat) \<Rightarrow> (int \<rightharpoonup> 'a mat) \<Rightarrow> (int \<rightharpoonup> 'a vec) \<Rightarrow> (int \<rightharpoonup> 'a vec)
   \<Rightarrow> 's \<Rightarrow> int \<Rightarrow> int \<Rightarrow> int \<Rightarrow> real \<Rightarrow> bool
   \<Rightarrow> error + ('a seq \<times> 'a seq \<times> 'a seq)" where
  "lstm_ref rt x h_0 c_0 W_ih W_hh b_ih b_hh seq_lengths input_size hidden_size num_layers
     dropout bidirectional =
     (if dropout \<noteq> 0 then Inl NotImplementedError
      else (case lstm_ref_run rt x h_0 c_0 (W_ih, W_hh, b_ih, b_hh) num_layers bidirectional of
              Inl e \<Rightarrow> Inl (Raised e)
            | Inr r \<Rightarrow> Inr r))"

section \<open>Backward rule\<close>

text \<open>\<open>jnp.zeros_like(a)\<close>: the shape and element type of \<open>a\<close>, every element zero.\<close>

definition zeros_like :: "'i::zero ndarray \<Rightarrow> 'i ndarray" where
  "zeros_like a = \<lparr>dims = dims a, elems = replicate (prod_list (dims a)) 0\<rparr>"

text \<open>
  The backward kernel \<open>rnn_bwd_p.bind\<close> is external: it is a parameter,
  taking the arrays and the five configuration values and returning four
  gradients or an error of its own.
\<close>

type_synonym ('t, 'i) bwd_arrays =
  "'t \<times> 't \<times> 't \<times> 't \<times> 't \<times> 't \<times> 't \<times> 't \<times> 't \<times> 't \<times> 'i ndarray"

type_synonym lstm_config = "int \<times> int \<times> int \<times> real \<times> bool"

definition lstm_bwd ::
  "(('t, 'i) bwd_arrays \<Rightarrow> lstm_config \<Rightarrow> 'e + ('t \<times> 't \<times> 't \<times> 't))
   \<Rightarrow> int \<Rightarrow> int \<Rightarrow> int \<Rightarrow> real \<Rightarrow> bool
   \<Rightarrow> 't \<times> 't \<times> 't \<times> 't \<times> 'i::zero ndarray \<times> 't \<times> 't \<times> 't
   \<Rightarrow> 't \<times> 't \<times> 't
   \<Rightarrow> 'e + ('t \<times> 't \<times> 't \<times> 't \<times> 'i ndarray)" where
  "lstm_bwd rnn_bwd input_size hidden_size num_layers dropout bidirectional residuals gradients =
     (case residuals of (x, h_0, c_0, w, seq_lengths, y, workspace, reserve_space) \<Rightarrow>
      case gradients of (dy, dh_n, dc_n) \<Rightarrow>
      case rnn_bwd (dy, dh_n, dc_n, x, h_0, c_0, w, y, workspace, reserve_space, seq_lengths)
             (input_size, hidden_size, num_layers, dropout, bidirectional) of
        Inl e \<Rightarrow> Inl e
      | Inr (dx, dh_0, dc_0, dw) \<Rightarrow> Inr (dx, dh_0, dc_0, dw, zeros_like seq_lengths))"

section \<open>Shapes and the cell equations, entry by entry\<close>

text \<open>A matrix of \<open>r\<close> rows, each of \<open>c\<close> entries.\<close>

definition mat_shape :: "nat \<Rightarrow> nat \<Rightarrow> 'a mat \<Rightarrow> bool" where
  "mat_shape r c A = (length A = r \<and> list_all (\<lambda>row. length row = c) A)"

text \<open>
  The cell equations as the specification writes them, for batch row \<open>b\<close>
  and hidden unit \<open>j\<close>.  Gate \<open>k\<close> owns rows \<open>k * hidden\<close> up to
  \<open>(k + 1) * hidden\<close> of the gate-stacked parameters: 0 is the input gate,
  1 the forget gate, 2 the candidate, 3 the output gate.  The pre-activation
  of gate \<open>k\<close> is \<open>x\<^sub>b \<cdot> W_ih[r] + b_ih[r] + h\<^sub>b \<cdot> W_hh[r] + b_hh[r]\<close>
  with \<open>r = k * hidden + j\<close>.
\<close>

definition gate_entry ::
  "'a runtime \<Rightarrow> 'a mat \<Rightarrow> 'a mat \<Rightarrow> 'a mat \<Rightarrow> 'a mat \<Rightarrow> 'a vec \<Rightarrow> 'a vec
   \<Rightarrow> nat \<Rightarrow> nat \<Rightarrow> nat \<Rightarrow> nat \<Rightarrow> 'a" where
  "gate_entry rt x h W_ih W_hh b_ih b_hh hidden k b j =
     rt_add rt
       (rt_add rt
          (rt_add rt (rt_dot rt (x ! b) (W_ih ! (k * hidden + j))) (b_ih ! (k * hidden + j)))
          (rt_dot rt (h ! b) (W_hh ! (k * hidden + j))))
       (b_hh ! (k * hidden + j))"

text \<open>\<open>c' = f * c + i * g\<close> and \<open>h' = o * tanh c'\<close>.\<close>

definition cell_entry_c ::
  "'a runtime \<Rightarrow> 'a mat \<Rightarrow> 'a mat \<Rightarrow> 'a mat \<Rightarrow> 'a mat \<Rightarrow> 'a mat \<Rightarrow> 'a vec \<Rightarrow> 'a vec
   \<Rightarrow> nat \<Rightarrow> nat \<Rightarrow> nat \<Rightarrow> 'a" where
  "cell_entry_c rt x h c W_ih W_hh b_ih b_hh hidden b j =
     (let i_t = rt_sigmoid rt (gate_entry rt x h W_ih W_hh b_ih b_hh hidden 0 b j);
          f_t = rt_sigmoid rt (gate_entry rt x h W_ih W_hh b_ih b_hh hidden 1 b j);
          g_t = rt_tanh rt (gate_entry rt x h W_ih W_hh b_ih b_hh hidden 2 b j)
      in rt_add rt (rt_mul rt f_t (c ! b ! j)) (rt_mul rt i_t g_t))"

definition cell_entry_h ::
  "'a runtime \<Rightarrow> 'a mat \<Rightarrow> 'a mat \<Rightarrow> 'a mat \<Rightarrow> 'a mat \<Rightarrow> 'a mat \<Rightarrow> 'a vec \<Rightarrow> 'a vec
   \<Rightarrow> nat \<Rightarrow> nat \<Rightarrow> nat \<Rightarrow> 'a" where
  "cell_entry_h rt x h c W_ih W_hh b_ih b_hh hidden b j =
     (let o_t = rt_sigmoid rt (gate_entry rt x h W_ih W_hh b_ih b_hh hidden 3 b j)
      in rt_mul rt o_t (rt_tanh rt (cell_entry_c rt x h c W_ih W_hh b_ih b_hh hidden b j)))"

section \<open>The layer recurrence of the specification\<close>

text \<open>
  The layer composition of a unidirectional network in the specification's
  words, written without the library calls of the code.  An array with its
  first two axes exchanged; a batch-major sequence becomes time-major and
  back.
\<close>

definition swap_axes :: "'a list list \<Rightarrow> 'a list list" where
  "swap_axes a = map (\<lambda>i. map (\<lambda>row. row ! i) a) [0..<length (hd a)]"

text \<open>
  One time step of a layer: the new hidden and cell state, entry by entry,
  are the cell equations on the previous state and the current input.
\<close>

type_synonym 'a layer_params = "'a mat \<times> 'a mat \<times> 'a vec \<times> 'a vec"

definition recurrence_step ::
  "'a runtime \<Rightarrow> 'a layer_params \<Rightarrow> nat \<Rightarrow> 'a carry \<Rightarrow> 'a mat \<Rightarrow> 'a carry" where
  "recurrence_step rt params hidden carry x_t =
     (case params of (W_ih, W_hh, b_ih, b_hh) \<Rightarrow>
      case carry of (h, c) \<Rightarrow>
        (map (\<lambda>b. map (\<lambda>j. cell_entry_h rt x_t h c W_ih W_hh b_ih b_hh hidden b j) [0..<hidden])
             [0..<length h],
         map (\<lambda>b. map (\<lambda>j. cell_entry_c rt x_t h c W_ih W_hh b_ih b_hh hidden b j) [0..<hidden])
             [0..<length h]))"

text \<open>
  The recurrence over time: from an initial state, one step per time step,
  returning the final state and the hidden state after every step.
\<close>

fun recurrence ::
  "('a carry \<Rightarrow> 'a mat \<Rightarrow> 'a carry) \<Rightarrow> 'a carry \<Rightarrow> 'a seq \<Rightarrow> 'a carry \<times> 'a seq" where
  "recurrence step carry [] = (carry, [])"
| "recurrence step carry (x_t # xs) =
     (case recurrence step (step carry x_t) xs of
        (final, ys) \<Rightarrow> (final, fst (step carry x_t) # ys))"

text \<open>
  Two layers: the recurrence of layer 0 from \<open>(h_0[0], c_0[0])\<close> over the
  input, then the recurrence of layer 1 from \<open>(h_0[1], c_0[1])\<close> over the
  hidden sequence of layer 0.  The output is the hidden sequence of layer 1,
  batch-major; the final states of the two recurrences are \<open>h_n[0], c_n[0]\<close>
  and \<open>h_n[1], c_n[1]\<close>.
\<close>

definition two_layer_recurrence ::
  "'a runtime \<Rightarrow> 'a seq \<Rightarrow> 'a seq \<Rightarrow> 'a seq \<Rightarrow> 'a layer_params \<Rightarrow> 'a layer_params \<Rightarrow> nat
   \<Rightarrow> 'a seq \<times> 'a seq \<times> 'a seq" where
  "two_layer_recurrence rt x h_0 c_0 params0 params1 hidden =
     (case recurrence (recurrence_step rt params0 hidden) (h_0 ! 0, c_0 ! 0) (swap_axes x) of
        (final0, ys0) \<Rightarrow>
          (case recurrence (recurrence_step rt params1 hidden) (h_0 ! 1, c_0 ! 1) ys0 of
             (final1, ys1) \<Rightarrow>
               (swap_axes ys1, [fst final0, fst final1], [snd final0, snd final1])))"

text \<open>The documented shapes of a rank-three array and of the parameters of a pseudo-layer.\<close>

definition seq_shape :: "nat \<Rightarrow> nat \<Rightarrow> nat \<Rightarrow> 'a seq \<Rightarrow> bool" where
  "seq_shape n m k a = (length a = n \<and> list_all (mat_shape m k) a)"

definition layer_params_shape :: "nat \<Rightarrow> nat \<Rightarrow> 'a layer_params \<Rightarrow> bool" where
  "layer_params_shape hidden inp params =
     (case params of (W_ih, W_hh, b_ih, b_hh) \<Rightarrow>
        mat_shape (4 * hidden) inp W_ih \<and> mat_shape (4 * hidden) hidden W_hh
        \<and> length b_ih = 4 * hidden \<and> length b_hh = 4 * hidden)"

section \<open>Shape calculator: properties\<close>

lemma foldl_mult_int: "foldl (*) (a::int) s = a * prod_list s"
  by (induction s arbitrary: a) (simp_all add: mult.assoc)

lemma prod_shape_prod_list: "prod_shape s = prod_list s"
  by (simp add: prod_shape_def foldl_mult_int)

lemma length_concat_pairs:
  "length (concat (map (\<lambda>i. [f i, g i]) xs)) = 2 * length xs"
  by (induction xs) simp_all

lemma concat_pairs_nth:
  "k < length xs \<Longrightarrow>
     concat (map (\<lambda>i. [f i, g i]) xs) ! (2 * k) = f (xs ! k) \<and>
     concat (map (\<lambda>i. [f i, g i]) xs) ! (2 * k + 1) = g (xs ! k)"
proof (induction xs arbitrary: k)
  case Nil
  then show ?case by simp
next
  case (Cons x xs)
  show ?case
  proof (cases k)
    case 0
    then show ?thesis by simp
  next
    case (Suc j)
    with Cons.prems have "j < length xs" by simp
    from Cons.IH [OF this] Suc show ?thesis by simp
  qed
qed

lemma kind_shapes_pair:
  "kind_shapes [f, g] n a b c = concat (map (\<lambda>i. [f i a b c, g i a b c]) (py_range n))"
  by (simp add: kind_shapes_def)

lemma length_py_range: "length (py_range n) = nat n"
  by (simp add: py_range_def)

lemma nth_py_range: "k < nat n \<Longrightarrow> py_range n ! k = int k"
  by (simp add: py_range_def)

lemma length_kind_shapes: "length (kind_shapes [f, g] n a b c) = 2 * nat n"
  by (simp add: kind_shapes_pair length_concat_pairs length_py_range)

lemma kind_shapes_nth:
  assumes "0 \<le> i" "i < n"
  shows "kind_shapes [f, g] n a b c ! (2 * nat i) = f i a b c"
    and "kind_shapes [f, g] n a b c ! (2 * nat i + 1) = g i a b c"
proof -
  have k: "nat i < length (py_range n)" using assms by (simp add: length_py_range)
  have e: "py_range n ! nat i = i" using assms by (simp add: nth_py_range)
  from concat_pairs_nth [OF k, of "\<lambda>i. f i a b c" "\<lambda>i. g i a b c"] e
  show "kind_shapes [f, g] n a b c ! (2 * nat i) = f i a b c"
    and "kind_shapes [f, g] n a b c ! (2 * nat i + 1) = g i a b c"
    by (simp_all add: kind_shapes_pair)
qed

text \<open>
  C3. For every pseudo-layer index \<open>i\<close> the shape of \<open>W_ih\<close> is
  \<open>(4h, input_size)\<close> when \<open>i\<close> is 0, or when \<open>i\<close> is 1 and the network is
  bidirectional, and \<open>(4h, num_directions * h)\<close> otherwise; \<open>W_hh\<close> is always
  \<open>(4h, h)\<close> and both biases are always \<open>(4h,)\<close>.  These are the shapes the
  shape list holds for pseudo-layer \<open>i\<close>: the linear weights at positions
  \<open>2i\<close> and \<open>2i + 1\<close>, the biases at the same positions of the second half.
\<close>

theorem shape_per_pseudo_layer:
  "W_ih_l i input_size hidden_size bidirectional =
     (if i = 0 \<or> (i = 1 \<and> bidirectional) then [4 * hidden_size, input_size]
      else [4 * hidden_size, (if bidirectional then 2 else 1) * hidden_size])
   \<and> W_hh_l i input_size hidden_size bidirectional = [4 * hidden_size, hidden_size]
   \<and> b_ih_l i input_size hidden_size bidirectional = [4 * hidden_size]
   \<and> b_hh_l i input_size hidden_size bidirectional = [4 * hidden_size]
   \<and> (0 \<le> i \<and> i < num_layers * (if bidirectional then 2 else 1) \<longrightarrow>
       (let fs = get_params_shapes_in_lstm input_size hidden_size num_layers bidirectional;
            n = nat (num_layers * (if bidirectional then 2 else 1))
        in length fs = 4 * n
         \<and> fs ! (2 * nat i) = W_ih_l i input_size hidden_size bidirectional
         \<and> fs ! (2 * nat i + 1) = W_hh_l i input_size hidden_size bidirectional
         \<and> fs ! (2 * n + 2 * nat i) = b_ih_l i input_size hidden_size bidirectional
         \<and> fs ! (2 * n + 2 * nat i + 1) = b_hh_l i input_size hidden_size bidirectional))"
proof -
  let ?n = "num_layers * (if bidirectional then 2 else 1)"
  let ?fs = "get_params_shapes_in_lstm input_size hidden_size num_layers bidirectional"
  have fs: "?fs = kind_shapes [W_ih_l, W_hh_l] ?n input_size hidden_size bidirectional
                @ kind_shapes [b_ih_l, b_hh_l] ?n input_size hidden_size bidirectional"
    by (simp add: get_params_shapes_in_lstm_def Let_def)
  have len: "length ?fs = 4 * nat ?n"
    unfolding fs by (simp add: length_kind_shapes)
  have idx: "?fs ! (2 * nat i) = W_ih_l i input_size hidden_size bidirectional
     \<and> ?fs ! (2 * nat i + 1) = W_hh_l i input_size hidden_size bidirectional
     \<and> ?fs ! (2 * nat ?n + 2 * nat i) = b_ih_l i input_size hidden_size bidirectional
     \<and> ?fs ! (2 * nat ?n + 2 * nat i + 1) = b_hh_l i input_size hidden_size bidirectional"
    if b: "0 \<le> i" "i < ?n"
  proof -
    have lt: "2 * nat i < 2 * nat ?n" "2 * nat i + 1 < 2 * nat ?n" using b by linarith+
    show ?thesis
      unfolding fs using lt kind_shapes_nth [OF b]
      by (simp add: nth_append length_kind_shapes add.assoc)
  qed
  show ?thesis
    using len idx by (simp add: W_ih_l_def W_hh_l_def b_ih_l_def b_hh_l_def Let_def)
qed

theorem shape_per_pseudo_layer_witness:
  "(0::int) \<le> 3 \<and> (3::int) < 2 * (if True then 2 else 1)
   \<and> get_params_shapes_in_lstm 5 7 2 True ! (2 * nat 3) = [28, 14]
   \<and> get_params_shapes_in_lstm 5 7 2 True ! (2 * nat 1) = [28, 5]
   \<and> length (get_params_shapes_in_lstm 5 7 2 True) = 16"
  using shape_per_pseudo_layer [of 3 5 7 True 2] shape_per_pseudo_layer [of 1 5 7 True 2]
  by (simp add: Let_def)

section \<open>Weight unpacker: properties\<close>

lemma prod_shape_nonneg: "\<forall>d \<in> set s. 0 \<le> d \<Longrightarrow> 0 \<le> prod_shape s"
  by (simp add: prod_shape_prod_list prod_list_nonneg)

lemma py_slice_inside:
  assumes "0 \<le> a" "0 \<le> n" "a + n \<le> int (length xs)"
  shows "py_slice xs a (a + n) = take (nat n) (drop (nat a) xs)"
proof -
  have "slice_bound (int (length xs)) a = nat a"
    using assms by (simp add: slice_bound_def)
  moreover have "slice_bound (int (length xs)) (a + n) = nat (a + n)"
    using assms by (simp add: slice_bound_def)
  moreover have "nat (a + n) - nat a = nat n" using assms by linarith
  ultimately show ?thesis by (simp add: py_slice_def Let_def)
qed

lemma length_py_slice:
  assumes "0 \<le> a" "0 \<le> n" "a \<le> int (length xs)"
  shows "int (length (py_slice xs a (a + n))) = min (a + n) (int (length xs)) - a"
proof -
  have b1: "slice_bound (int (length xs)) a = nat a"
    using assms by (simp add: slice_bound_def)
  have b2: "slice_bound (int (length xs)) (a + n) = nat (min (a + n) (int (length xs)))"
    using assms by (simp add: slice_bound_def)
  have "length (py_slice xs a (a + n))
        = min (length xs - nat a) (nat (min (a + n) (int (length xs))) - nat a)"
    unfolding py_slice_def Let_def b1 b2 by (simp only: length_take length_drop)
  then show ?thesis using assms by arith
qed

lemma reshape_nonneg:
  "\<forall>d \<in> set s. 0 \<le> d \<Longrightarrow>
   reshape xs s = (if prod_shape s = int (length xs)
                   then Inr \<lparr>dims = map nat s, elems = xs\<rparr> else Inl TypeError)"
  by (simp add: reshape_def)

text \<open>One parameter, when the slice fits.\<close>

lemma take_param_ok:
  assumes fso: "flat_shapes_offset cur < length fs"
    and v: "valid_shapes fs"
    and off: "0 \<le> w_offsets cur"
    and fit: "w_offsets cur + prod_shape (fs ! flat_shapes_offset cur) \<le> int (length w)"
  shows "take_param w fs cur =
     Inr (\<lparr>dims = map nat (fs ! flat_shapes_offset cur),
           elems = take (nat (prod_shape (fs ! flat_shapes_offset cur))) (drop (nat (w_offsets cur)) w)\<rparr>,
          \<lparr>flat_shapes_offset = flat_shapes_offset cur + 1,
           w_offsets = w_offsets cur + prod_shape (fs ! flat_shapes_offset cur),
           slices = slices cur @ [(w_offsets cur, w_offsets cur + prod_shape (fs ! flat_shapes_offset cur))]\<rparr>)"
proof -
  let ?s = "fs ! flat_shapes_offset cur"
  have nn: "\<forall>d \<in> set ?s. 0 \<le> d" using v fso unfolding valid_shapes_def by (meson nth_mem)
  have n0: "0 \<le> prod_shape ?s" by (rule prod_shape_nonneg [OF nn])
  have sl: "py_slice w (w_offsets cur) (w_offsets cur + prod_shape ?s)
            = take (nat (prod_shape ?s)) (drop (nat (w_offsets cur)) w)"
    by (rule py_slice_inside [OF off n0 fit])
  have "length (take (nat (prod_shape ?s)) (drop (nat (w_offsets cur)) w))
        = min (length w - nat (w_offsets cur)) (nat (prod_shape ?s))"
    by (simp only: length_take length_drop)
  then have len: "prod_shape ?s = int (length (take (nat (prod_shape ?s)) (drop (nat (w_offsets cur)) w)))"
    using off n0 fit by arith
  show ?thesis
    using fso len by (simp only: take_param_def Let_def sl reshape_nonneg [OF nn]) simp
qed

text \<open>One parameter, whatever the buffer: a reshape error or a slice that fits.\<close>

lemma take_param_cases:
  assumes fso: "flat_shapes_offset cur < length fs"
    and v: "valid_shapes fs"
    and off: "0 \<le> w_offsets cur" "w_offsets cur \<le> int (length w)"
  shows "take_param w fs cur = Inl TypeError
       \<or> w_offsets cur + prod_shape (fs ! flat_shapes_offset cur) \<le> int (length w)"
proof -
  let ?s = "fs ! flat_shapes_offset cur"
  have nn: "\<forall>d \<in> set ?s. 0 \<le> d" using v fso unfolding valid_shapes_def by (meson nth_mem)
  have n0: "0 \<le> prod_shape ?s" by (rule prod_shape_nonneg [OF nn])
  have len: "int (length (py_slice w (w_offsets cur) (w_offsets cur + prod_shape ?s)))
             = min (w_offsets cur + prod_shape ?s) (int (length w)) - w_offsets cur"
    by (rule length_py_slice [OF off(1) n0 off(2)])
  show ?thesis
  proof (cases "w_offsets cur + prod_shape ?s \<le> int (length w)")
    case True then show ?thesis by simp
  next
    case False
    then have "prod_shape ?s \<noteq> int (length (py_slice w (w_offsets cur) (w_offsets cur + prod_shape ?s)))"
      using len by linarith
    then show ?thesis
      using fso by (simp add: take_param_def Let_def reshape_nonneg [OF nn])
  qed
qed

lemma cost_0: "cost fs i 0 = 0"
  by (simp add: cost_def)

lemma take_drop_two:
  assumes "i + 2 \<le> length fs"
  shows "take (Suc (Suc k)) (drop i fs) = fs ! i # fs ! Suc i # take k (drop (i + 2) fs)"
proof -
  have 1: "drop i fs = fs ! i # drop (Suc i) fs"
    using assms by (simp add: Cons_nth_drop_Suc)
  have 2: "drop (Suc i) fs = fs ! Suc i # drop (Suc (Suc i)) fs"
    using assms by (simp add: Cons_nth_drop_Suc)
  show ?thesis by (simp add: 1 2)
qed

lemma cost_step:
  assumes "i + 2 \<le> length fs"
  shows "cost fs i (2 * Suc k) = prod_shape (fs ! i) + prod_shape (fs ! Suc i) + cost fs (i + 2) (2 * k)"
  using take_drop_two [OF assms, of "2 * k"] by (simp add: cost_def)

lemma cost_nonneg: "valid_shapes fs \<Longrightarrow> 0 \<le> cost fs i k"
  unfolding cost_def valid_shapes_def
  by (rule sum_list_nonneg) (auto dest!: in_set_takeD in_set_dropD intro: prod_shape_nonneg)

lemma valid_nth: "valid_shapes fs \<Longrightarrow> i < length fs \<Longrightarrow> 0 \<le> prod_shape (fs ! i)"
  unfolding valid_shapes_def by (meson nth_mem prod_shape_nonneg)

lemma tiling_append: "tiling a xs b \<Longrightarrow> tiling b ys c \<Longrightarrow> tiling a (xs @ ys) c"
  by (induction a xs b rule: tiling.induct) auto

lemma take_take_drop:
  "take a (drop i w) @ take b (drop (i + a) w) = take (a + b) (drop i w)"
  by (simp add: take_add add.commute)

lemma unpack_loop_ok:
  assumes "valid_shapes fs" "distinct ls"
    and "flat_shapes_offset cur + 2 * length ls \<le> length fs"
    and "0 \<le> w_offsets cur"
    and "w_offsets cur + cost fs (flat_shapes_offset cur) (2 * length ls) \<le> int (length w)"
  shows "\<exists>cur' d1' d2' sl.
      unpack_loop w fs ls cur d1 d2 = Inr (cur', d1', d2')
    \<and> flat_shapes_offset cur' = flat_shapes_offset cur + 2 * length ls
    \<and> w_offsets cur' = w_offsets cur + cost fs (flat_shapes_offset cur) (2 * length ls)
    \<and> slices cur' = slices cur @ sl
    \<and> tiling (w_offsets cur) sl (w_offsets cur') \<and> length sl = 2 * length ls
    \<and> flatten_pairs d1' d2' ls
        = Inr (take (nat (cost fs (flat_shapes_offset cur) (2 * length ls)))
                 (drop (nat (w_offsets cur)) w))
    \<and> (\<forall>k. k \<notin> set ls \<longrightarrow> d1' k = d1 k \<and> d2' k = d2 k)"
  using assms
proof (induction ls arbitrary: cur d1 d2)
  case Nil
  show ?case by (simp add: cost_0)
next
  case (Cons l ls)
  let ?i = "flat_shapes_offset cur"
  let ?o = "w_offsets cur"
  let ?p1 = "prod_shape (fs ! ?i)"
  let ?p2 = "prod_shape (fs ! Suc ?i)"
  let ?rest = "cost fs (?i + 2) (2 * length ls)"
  have v: "valid_shapes fs" by fact
  have i2: "?i + 2 \<le> length fs" using Cons.prems(3) by simp
  have c: "cost fs ?i (2 * length (l # ls)) = ?p1 + ?p2 + ?rest"
    using cost_step [OF i2, of "length ls"] by simp
  have p1: "0 \<le> ?p1" using valid_nth [OF v, of ?i] i2 by simp
  have p2: "0 \<le> ?p2" using valid_nth [OF v, of "Suc ?i"] i2 by simp
  have r: "0 \<le> ?rest" by (rule cost_nonneg [OF v])
  have o: "0 \<le> ?o" by fact
  have tot: "?o + (?p1 + ?p2 + ?rest) \<le> int (length w)" using Cons.prems(5) c by simp
  define a :: "'a ndarray" where
    "a = \<lparr>dims = map nat (fs ! ?i), elems = take (nat ?p1) (drop (nat ?o) w)\<rparr>"
  define cur1 where
    "cur1 = \<lparr>flat_shapes_offset = ?i + 1, w_offsets = ?o + ?p1, slices = slices cur @ [(?o, ?o + ?p1)]\<rparr>"
  have t1: "take_param w fs cur = Inr (a, cur1)"
    unfolding a_def cur1_def
    by (rule take_param_ok [OF _ v o]) (use i2 p2 r tot in simp_all)
  define b :: "'a ndarray" where
    "b = \<lparr>dims = map nat (fs ! Suc ?i), elems = take (nat ?p2) (drop (nat (?o + ?p1)) w)\<rparr>"
  define cur2 where
    "cur2 = \<lparr>flat_shapes_offset = ?i + 2, w_offsets = ?o + ?p1 + ?p2,
             slices = slices cur @ [(?o, ?o + ?p1), (?o + ?p1, ?o + ?p1 + ?p2)]\<rparr>"
  have t2: "take_param w fs cur1 = Inr (b, cur2)"
  proof -
    have "take_param w fs cur1 =
      Inr (\<lparr>dims = map nat (fs ! flat_shapes_offset cur1),
            elems = take (nat (prod_shape (fs ! flat_shapes_offset cur1))) (drop (nat (w_offsets cur1)) w)\<rparr>,
           \<lparr>flat_shapes_offset = flat_shapes_offset cur1 + 1,
            w_offsets = w_offsets cur1 + prod_shape (fs ! flat_shapes_offset cur1),
            slices = slices cur1 @ [(w_offsets cur1, w_offsets cur1 + prod_shape (fs ! flat_shapes_offset cur1))]\<rparr>)"
      by (rule take_param_ok [OF _ v]) (use i2 o p1 r tot in \<open>simp_all add: cur1_def\<close>)
    then show ?thesis by (simp add: cur1_def b_def cur2_def)
  qed
  have "\<exists>cur' d1' d2' sl.
      unpack_loop w fs ls cur2 (d1(l \<mapsto> a)) (d2(l \<mapsto> b)) = Inr (cur', d1', d2')
    \<and> flat_shapes_offset cur' = flat_shapes_offset cur2 + 2 * length ls
    \<and> w_offsets cur' = w_offsets cur2 + cost fs (flat_shapes_offset cur2) (2 * length ls)
    \<and> slices cur' = slices cur2 @ sl
    \<and> tiling (w_offsets cur2) sl (w_offsets cur') \<and> length sl = 2 * length ls
    \<and> flatten_pairs d1' d2' ls
        = Inr (take (nat (cost fs (flat_shapes_offset cur2) (2 * length ls)))
                 (drop (nat (w_offsets cur2)) w))
    \<and> (\<forall>k. k \<notin> set ls \<longrightarrow> d1' k = (d1(l \<mapsto> a)) k \<and> d2' k = (d2(l \<mapsto> b)) k)"
    by (rule Cons.IH [OF v])
       (use Cons.prems(2,3) o p1 p2 tot in \<open>simp_all add: cur2_def\<close>)
  then obtain cur' d1' d2' sl where
    run: "unpack_loop w fs ls cur2 (d1(l \<mapsto> a)) (d2(l \<mapsto> b)) = Inr (cur', d1', d2')"
    and fo: "flat_shapes_offset cur' = ?i + 2 + 2 * length ls"
    and wo: "w_offsets cur' = ?o + ?p1 + ?p2 + ?rest"
    and sl: "slices cur' = slices cur2 @ sl"
    and ti: "tiling (?o + ?p1 + ?p2) sl (w_offsets cur')"
    and ln: "length sl = 2 * length ls"
    and fl: "flatten_pairs d1' d2' ls = Inr (take (nat ?rest) (drop (nat (?o + ?p1 + ?p2)) w))"
    and keep: "\<forall>k. k \<notin> set ls \<longrightarrow> d1' k = (d1(l \<mapsto> a)) k \<and> d2' k = (d2(l \<mapsto> b)) k"
    by (auto simp: cur2_def)
  have lnot: "l \<notin> set ls" using Cons.prems(2) by simp
  have dl: "d1' l = Some a" "d2' l = Some b" using keep lnot by simp_all
  have e1: "nat (?o + ?p1) = nat ?o + nat ?p1" using o p1 by linarith
  have e2: "nat (?o + ?p1 + ?p2) = nat ?o + nat ?p1 + nat ?p2" using o p1 p2 by linarith
  have e3: "nat (?p1 + ?p2 + ?rest) = nat ?p1 + (nat ?p2 + nat ?rest)" using p1 p2 r by linarith
  have glue: "elems a @ elems b @ take (nat ?rest) (drop (nat (?o + ?p1 + ?p2)) w)
              = take (nat (?p1 + ?p2 + ?rest)) (drop (nat ?o) w)"
  proof -
    have "take (nat ?p2) (drop (nat ?o + nat ?p1) w) @ take (nat ?rest) (drop (nat ?o + nat ?p1 + nat ?p2) w)
          = take (nat ?p2 + nat ?rest) (drop (nat ?o + nat ?p1) w)"
      by (rule take_take_drop)
    moreover have "take (nat ?p1) (drop (nat ?o) w) @ take (nat ?p2 + nat ?rest) (drop (nat ?o + nat ?p1) w)
          = take (nat ?p1 + (nat ?p2 + nat ?rest)) (drop (nat ?o) w)"
      by (rule take_take_drop)
    ultimately show ?thesis by (simp only: a_def b_def e1 e2 e3 ndarray.simps)
  qed
  have ti': "tiling ?o ([(?o, ?o + ?p1), (?o + ?p1, ?o + ?p1 + ?p2)] @ sl) (w_offsets cur')"
    by (rule tiling_append [OF _ ti]) (use p1 p2 in simp)
  have "unpack_loop w fs (l # ls) cur d1 d2 = Inr (cur', d1', d2')"
    by (simp add: t1 t2 run)
  moreover have "flat_shapes_offset cur' = ?i + 2 * length (l # ls)" using fo by simp
  moreover have "w_offsets cur' = ?o + cost fs ?i (2 * length (l # ls))" using wo c by simp
  moreover have "slices cur' = slices cur @ ([(?o, ?o + ?p1), (?o + ?p1, ?o + ?p1 + ?p2)] @ sl)"
    using sl by (simp add: cur2_def)
  moreover have "flatten_pairs d1' d2' (l # ls)
        = Inr (take (nat (cost fs ?i (2 * length (l # ls)))) (drop (nat ?o) w))"
    using dl fl glue c by simp
  moreover have "\<forall>k. k \<notin> set (l # ls) \<longrightarrow> d1' k = d1 k \<and> d2' k = d2 k"
    using keep by simp
  moreover have "length ([(?o, ?o + ?p1), (?o + ?p1, ?o + ?p1 + ?p2)] @ sl) = 2 * length (l # ls)"
    using ln by simp
  ultimately show ?case using ti' by blast
qed




lemma cost_split: "cost fs 0 (a + b) = cost fs 0 a + cost fs a b"
  by (simp add: cost_def take_add)

lemma cost_all: "sum_list (map prod_shape fs) = cost fs 0 (length fs)"
  by (simp add: cost_def)

lemma distinct_py_range: "distinct (py_range n)"
  by (simp add: py_range_def distinct_map inj_on_def)

lemma valid_kind_shapes:
  assumes "\<And>i. \<forall>d \<in> set (f i a b c). 0 \<le> d" "\<And>i. \<forall>d \<in> set (g i a b c). 0 \<le> d"
  shows "valid_shapes (kind_shapes [f, g] n a b c)"
  using assms by (auto simp: valid_shapes_def kind_shapes_def)

lemma valid_params_shapes:
  assumes "0 \<le> input_size" "0 \<le> hidden_size"
  shows "valid_shapes (get_params_shapes_in_lstm input_size hidden_size num_layers bidirectional)"
proof -
  have "valid_shapes (kind_shapes [W_ih_l, W_hh_l] n input_size hidden_size bidirectional)" for n
    by (rule valid_kind_shapes) (use assms in \<open>auto simp: W_ih_l_def W_hh_l_def Let_def\<close>)
  moreover
  have "valid_shapes (kind_shapes [b_ih_l, b_hh_l] n input_size hidden_size bidirectional)" for n
    by (rule valid_kind_shapes) (use assms in \<open>auto simp: b_ih_l_def b_hh_l_def\<close>)
  ultimately show ?thesis
    by (auto simp: get_params_shapes_in_lstm_def Let_def valid_shapes_def)
qed

lemma length_params_shapes:
  "length (get_params_shapes_in_lstm input_size hidden_size num_layers bidirectional)
   = 4 * nat (num_layers * (if bidirectional then 2 else 1))"
  by (simp add: get_params_shapes_in_lstm_def Let_def length_kind_shapes)

lemma num_params_cost:
  "get_num_params_in_lstm input_size hidden_size num_layers bidirectional
   = cost (get_params_shapes_in_lstm input_size hidden_size num_layers bidirectional) 0
       (2 * nat (num_layers * (if bidirectional then 2 else 1)))
   + cost (get_params_shapes_in_lstm input_size hidden_size num_layers bidirectional)
       (2 * nat (num_layers * (if bidirectional then 2 else 1)))
       (2 * nat (num_layers * (if bidirectional then 2 else 1)))"
proof -
  let ?fs = "get_params_shapes_in_lstm input_size hidden_size num_layers bidirectional"
  let ?n = "nat (num_layers * (if bidirectional then 2 else 1))"
  have "length ?fs = 2 * ?n + 2 * ?n" by (simp add: length_params_shapes)
  then have "cost ?fs 0 (length ?fs) = cost ?fs 0 (2 * ?n) + cost ?fs (2 * ?n) (2 * ?n)"
    by (simp only: cost_split)
  then show ?thesis
    by (simp only: get_num_params_in_lstm_def Let_def cost_all)
qed

text \<open>The whole unpacking of a buffer that is at least as long as the parameter count.\<close>

lemma unpack_run_ok:
  assumes "0 \<le> input_size" "0 \<le> hidden_size"
    and "get_num_params_in_lstm input_size hidden_size num_layers bidirectional \<le> int (length w)"
  shows "\<exists>ws cur.
      unpack_lstm_weights_run w input_size hidden_size num_layers bidirectional = Inr (ws, cur)
    \<and> w_offsets cur = get_num_params_in_lstm input_size hidden_size num_layers bidirectional
    \<and> tiling 0 (slices cur) (w_offsets cur)
    \<and> length (slices cur)
        = length (get_params_shapes_in_lstm input_size hidden_size num_layers bidirectional)
    \<and> pack_lstm_weights ws num_layers bidirectional
        = Inr (take (nat (get_num_params_in_lstm input_size hidden_size num_layers bidirectional)) w)"
proof -
  let ?fs = "get_params_shapes_in_lstm input_size hidden_size num_layers bidirectional"
  let ?npl = "num_layers * (if bidirectional then 2 else 1)"
  let ?n = "nat ?npl"
  let ?c1 = "cost ?fs 0 (2 * ?n)"
  let ?c2 = "cost ?fs (2 * ?n) (2 * ?n)"
  let ?cur0 = "\<lparr>flat_shapes_offset = 0, w_offsets = 0, slices = []\<rparr>"
  have v: "valid_shapes ?fs" by (rule valid_params_shapes [OF assms(1,2)])
  have len: "length ?fs = 4 * ?n" by (rule length_params_shapes)
  have tot: "get_num_params_in_lstm input_size hidden_size num_layers bidirectional = ?c1 + ?c2"
    by (rule num_params_cost)
  have c1: "0 \<le> ?c1" and c2: "0 \<le> ?c2" by (rule cost_nonneg [OF v])+
  have lr: "length (py_range ?npl) = ?n" by (rule length_py_range)
  have "\<exists>cur' d1' d2' sl.
      unpack_loop w ?fs (py_range ?npl) ?cur0 Map.empty Map.empty = Inr (cur', d1', d2')
    \<and> flat_shapes_offset cur' = flat_shapes_offset ?cur0 + 2 * length (py_range ?npl)
    \<and> w_offsets cur' = w_offsets ?cur0 + cost ?fs (flat_shapes_offset ?cur0) (2 * length (py_range ?npl))
    \<and> slices cur' = slices ?cur0 @ sl
    \<and> tiling (w_offsets ?cur0) sl (w_offsets cur') \<and> length sl = 2 * length (py_range ?npl)
    \<and> flatten_pairs d1' d2' (py_range ?npl)
        = Inr (take (nat (cost ?fs (flat_shapes_offset ?cur0) (2 * length (py_range ?npl))))
                 (drop (nat (w_offsets ?cur0)) w))
    \<and> (\<forall>k. k \<notin> set (py_range ?npl) \<longrightarrow> d1' k = Map.empty k \<and> d2' k = Map.empty k)"
    by (rule unpack_loop_ok [OF v distinct_py_range])
       (use len lr c2 tot assms(3) in simp_all)
  then obtain cur1 W_ih W_hh sl1 where
    r1: "unpack_loop w ?fs (py_range ?npl) ?cur0 Map.empty Map.empty = Inr (cur1, W_ih, W_hh)"
    and f1: "flat_shapes_offset cur1 = 2 * ?n"
    and o1: "w_offsets cur1 = ?c1"
    and s1: "slices cur1 = sl1" and t1: "tiling 0 sl1 ?c1" and l1: "length sl1 = 2 * ?n"
    and p1: "flatten_pairs W_ih W_hh (py_range ?npl) = Inr (take (nat ?c1) w)"
    by (auto simp: lr)
  have "\<exists>cur' d1' d2' sl.
      unpack_loop w ?fs (py_range ?npl) cur1 Map.empty Map.empty = Inr (cur', d1', d2')
    \<and> flat_shapes_offset cur' = flat_shapes_offset cur1 + 2 * length (py_range ?npl)
    \<and> w_offsets cur' = w_offsets cur1 + cost ?fs (flat_shapes_offset cur1) (2 * length (py_range ?npl))
    \<and> slices cur' = slices cur1 @ sl
    \<and> tiling (w_offsets cur1) sl (w_offsets cur') \<and> length sl = 2 * length (py_range ?npl)
    \<and> flatten_pairs d1' d2' (py_range ?npl)
        = Inr (take (nat (cost ?fs (flat_shapes_offset cur1) (2 * length (py_range ?npl))))
                 (drop (nat (w_offsets cur1)) w))
    \<and> (\<forall>k. k \<notin> set (py_range ?npl) \<longrightarrow> d1' k = Map.empty k \<and> d2' k = Map.empty k)"
    by (rule unpack_loop_ok [OF v distinct_py_range])
       (use len lr f1 o1 c1 tot assms(3) in simp_all)
  then obtain cur2 b_ih b_hh sl2 where
    r2: "unpack_loop w ?fs (py_range ?npl) cur1 Map.empty Map.empty = Inr (cur2, b_ih, b_hh)"
    and o2: "w_offsets cur2 = ?c1 + ?c2"
    and s2: "slices cur2 = sl1 @ sl2" and t2: "tiling ?c1 sl2 (?c1 + ?c2)" and l2: "length sl2 = 2 * ?n"
    and p2: "flatten_pairs b_ih b_hh (py_range ?npl) = Inr (take (nat ?c2) (drop (nat ?c1) w))"
    by (auto simp: lr f1 o1 s1)
  have run: "unpack_lstm_weights_run w input_size hidden_size num_layers bidirectional
             = Inr ((W_ih, W_hh, b_ih, b_hh), cur2)"
    by (simp add: unpack_lstm_weights_run_def Let_def r1 r2)
  have "take (nat ?c1) w @ take (nat ?c2) (drop (nat ?c1) w) = take (nat ?c1 + nat ?c2) w"
    by (simp add: take_add)
  moreover have "nat ?c1 + nat ?c2 = nat (?c1 + ?c2)" using c1 c2 by linarith
  ultimately have pk: "pack_lstm_weights (W_ih, W_hh, b_ih, b_hh) num_layers bidirectional
             = Inr (take (nat (?c1 + ?c2)) w)"
    by (simp add: pack_lstm_weights_def Let_def p1 p2)
  have ti: "tiling 0 (slices cur2) (w_offsets cur2)"
    unfolding s2 o2 by (rule tiling_append [OF t1 t2])
  have "length (slices cur2) = length ?fs" using s2 l1 l2 len by simp
  with run o2 ti pk tot show ?thesis by simp
qed

text \<open>A loop that does not fail has consumed slices that fit the buffer.\<close>

lemma unpack_loop_sound:
  assumes "valid_shapes fs"
    and "flat_shapes_offset cur + 2 * length ls \<le> length fs"
    and "0 \<le> w_offsets cur" "w_offsets cur \<le> int (length w)"
  shows "unpack_loop w fs ls cur d1 d2 = Inl TypeError
       \<or> w_offsets cur + cost fs (flat_shapes_offset cur) (2 * length ls) \<le> int (length w)"
  using assms
proof (induction ls arbitrary: cur d1 d2)
  case Nil
  then show ?case by (simp add: cost_0)
next
  case (Cons l ls)
  let ?i = "flat_shapes_offset cur"
  let ?o = "w_offsets cur"
  let ?p1 = "prod_shape (fs ! ?i)"
  let ?p2 = "prod_shape (fs ! Suc ?i)"
  have v: "valid_shapes fs" by fact
  have i2: "?i + 2 \<le> length fs" using Cons.prems(2) by simp
  have i1: "?i < length fs" using i2 by simp
  have c: "cost fs ?i (2 * length (l # ls)) = ?p1 + ?p2 + cost fs (?i + 2) (2 * length ls)"
    using cost_step [OF i2, of "length ls"] by simp
  have p1: "0 \<le> ?p1" using valid_nth [OF v i1] .
  have p2: "0 \<le> ?p2" using valid_nth [OF v, of "Suc ?i"] i2 by simp
  from take_param_cases [OF i1 v Cons.prems(3,4)]
  show ?case
  proof
    assume "take_param w fs cur = Inl TypeError"
    then show ?thesis by simp
  next
    assume fit1: "?o + ?p1 \<le> int (length w)"
    define cur1 where
      "cur1 = \<lparr>flat_shapes_offset = ?i + 1, w_offsets = ?o + ?p1, slices = slices cur @ [(?o, ?o + ?p1)]\<rparr>"
    obtain a where t1: "take_param w fs cur = Inr (a, cur1)"
      using take_param_ok [OF i1 v Cons.prems(3) fit1] by (simp add: cur1_def)
    have j1: "flat_shapes_offset cur1 < length fs" using i2 by (simp add: cur1_def)
    have "take_param w fs cur1 = Inl TypeError
        \<or> w_offsets cur1 + prod_shape (fs ! flat_shapes_offset cur1) \<le> int (length w)"
      by (rule take_param_cases [OF j1 v]) (use Cons.prems(3) p1 fit1 in \<open>simp_all add: cur1_def\<close>)
    then show ?thesis
    proof
      assume "take_param w fs cur1 = Inl TypeError"
      then show ?thesis by (simp add: t1)
    next
      assume "w_offsets cur1 + prod_shape (fs ! flat_shapes_offset cur1) \<le> int (length w)"
      then have fit2: "?o + ?p1 + ?p2 \<le> int (length w)" by (simp add: cur1_def)
      define cur2 where
        "cur2 = \<lparr>flat_shapes_offset = ?i + 2, w_offsets = ?o + ?p1 + ?p2,
                 slices = slices cur1 @ [(?o + ?p1, ?o + ?p1 + ?p2)]\<rparr>"
      have o1: "0 \<le> w_offsets cur1" using Cons.prems(3) p1 by (simp add: cur1_def)
      have fit2': "w_offsets cur1 + prod_shape (fs ! flat_shapes_offset cur1) \<le> int (length w)"
        by fact
      from take_param_ok [OF j1 v o1 fit2']
      obtain b where t2: "take_param w fs cur1 = Inr (b, cur2)"
        by (simp add: cur1_def cur2_def)
      have "unpack_loop w fs ls cur2 (d1(l \<mapsto> a)) (d2(l \<mapsto> b)) = Inl TypeError
          \<or> w_offsets cur2 + cost fs (flat_shapes_offset cur2) (2 * length ls) \<le> int (length w)"
        by (rule Cons.IH [OF v]) (use Cons.prems(2,3) p1 p2 fit2 in \<open>simp_all add: cur2_def\<close>)
      then show ?thesis using c by (auto simp: t1 t2 cur2_def)
    qed
  qed
qed

lemma unpack_run_short:
  assumes "0 \<le> input_size" "0 \<le> hidden_size"
    and "int (length w) < get_num_params_in_lstm input_size hidden_size num_layers bidirectional"
  shows "unpack_lstm_weights_run w input_size hidden_size num_layers bidirectional = Inl TypeError"
proof -
  let ?fs = "get_params_shapes_in_lstm input_size hidden_size num_layers bidirectional"
  let ?npl = "num_layers * (if bidirectional then 2 else 1)"
  let ?n = "nat ?npl"
  let ?c1 = "cost ?fs 0 (2 * ?n)"
  let ?c2 = "cost ?fs (2 * ?n) (2 * ?n)"
  let ?cur0 = "\<lparr>flat_shapes_offset = 0, w_offsets = 0, slices = []\<rparr>"
  have v: "valid_shapes ?fs" by (rule valid_params_shapes [OF assms(1,2)])
  have len: "length ?fs = 4 * ?n" by (rule length_params_shapes)
  have tot: "get_num_params_in_lstm input_size hidden_size num_layers bidirectional = ?c1 + ?c2"
    by (rule num_params_cost)
  have c1: "0 \<le> ?c1" by (rule cost_nonneg [OF v])
  have lr: "length (py_range ?npl) = ?n" by (rule length_py_range)
  have "unpack_loop w ?fs (py_range ?npl) ?cur0 Map.empty Map.empty = Inl TypeError
      \<or> w_offsets ?cur0 + cost ?fs (flat_shapes_offset ?cur0) (2 * length (py_range ?npl))
          \<le> int (length w)"
    by (rule unpack_loop_sound [OF v]) (use len lr in simp_all)
  then show ?thesis
  proof
    assume "unpack_loop w ?fs (py_range ?npl) ?cur0 Map.empty Map.empty = Inl TypeError"
    then show ?thesis by (simp add: unpack_lstm_weights_run_def Let_def)
  next
    assume "w_offsets ?cur0 + cost ?fs (flat_shapes_offset ?cur0) (2 * length (py_range ?npl))
          \<le> int (length w)"
    then have fit: "?c1 \<le> int (length w)" by (simp add: lr)
    have "\<exists>cur' d1' d2' sl.
        unpack_loop w ?fs (py_range ?npl) ?cur0 Map.empty Map.empty = Inr (cur', d1', d2')
      \<and> flat_shapes_offset cur' = flat_shapes_offset ?cur0 + 2 * length (py_range ?npl)
      \<and> w_offsets cur' = w_offsets ?cur0 + cost ?fs (flat_shapes_offset ?cur0) (2 * length (py_range ?npl))
      \<and> slices cur' = slices ?cur0 @ sl
      \<and> tiling (w_offsets ?cur0) sl (w_offsets cur') \<and> length sl = 2 * length (py_range ?npl)
      \<and> flatten_pairs d1' d2' (py_range ?npl)
          = Inr (take (nat (cost ?fs (flat_shapes_offset ?cur0) (2 * length (py_range ?npl))))
                   (drop (nat (w_offsets ?cur0)) w))
      \<and> (\<forall>k. k \<notin> set (py_range ?npl) \<longrightarrow> d1' k = Map.empty k \<and> d2' k = Map.empty k)"
      by (rule unpack_loop_ok [OF v distinct_py_range]) (use len lr fit in simp_all)
    then obtain cur1 W_ih W_hh where
      r1: "unpack_loop w ?fs (py_range ?npl) ?cur0 Map.empty Map.empty = Inr (cur1, W_ih, W_hh)"
      and f1: "flat_shapes_offset cur1 = 2 * ?n"
      and o1: "w_offsets cur1 = ?c1"
      by (auto simp: lr)
    have "unpack_loop w ?fs (py_range ?npl) cur1 Map.empty Map.empty = Inl TypeError
        \<or> w_offsets cur1 + cost ?fs (flat_shapes_offset cur1) (2 * length (py_range ?npl))
            \<le> int (length w)"
      by (rule unpack_loop_sound [OF v]) (use len lr f1 o1 c1 fit in simp_all)
    then have "unpack_loop w ?fs (py_range ?npl) cur1 Map.empty Map.empty = Inl TypeError"
      using assms(3) tot by (simp add: lr f1 o1)
    then show ?thesis by (simp add: unpack_lstm_weights_run_def Let_def r1)
  qed
qed

text \<open>Elements beyond the slices read are never looked at.\<close>

lemma take_param_prefix:
  assumes fso: "flat_shapes_offset cur < length fs"
    and v: "valid_shapes fs"
    and off: "0 \<le> w_offsets cur"
    and fit: "w_offsets cur + prod_shape (fs ! flat_shapes_offset cur) \<le> int m"
    and m: "m \<le> length w"
  shows "take_param (take m w) fs cur = take_param w fs cur"
proof -
  let ?p = "prod_shape (fs ! flat_shapes_offset cur)"
  have p: "0 \<le> ?p" by (rule valid_nth [OF v fso])
  have "nat ?p \<le> m - nat (w_offsets cur)" using off fit p by linarith
  then have "take (nat ?p) (drop (nat (w_offsets cur)) (take m w))
        = take (nat ?p) (drop (nat (w_offsets cur)) w)"
    by (simp add: drop_take min_absorb1)
  moreover have "w_offsets cur + ?p \<le> int (length (take m w))" using fit m by simp
  moreover have "w_offsets cur + ?p \<le> int (length w)" using fit m by simp
  ultimately show ?thesis
    using take_param_ok [OF fso v off, of w] take_param_ok [OF fso v off, of "take m w"]
    by simp
qed

lemma unpack_loop_prefix:
  assumes "valid_shapes fs"
    and "flat_shapes_offset cur + 2 * length ls \<le> length fs"
    and "0 \<le> w_offsets cur"
    and "w_offsets cur + cost fs (flat_shapes_offset cur) (2 * length ls) \<le> int m"
    and "m \<le> length w"
  shows "unpack_loop (take m w) fs ls cur d1 d2 = unpack_loop w fs ls cur d1 d2"
  using assms
proof (induction ls arbitrary: cur d1 d2)
  case Nil
  show ?case by simp
next
  case (Cons l ls)
  let ?i = "flat_shapes_offset cur"
  let ?o = "w_offsets cur"
  let ?p1 = "prod_shape (fs ! ?i)"
  let ?p2 = "prod_shape (fs ! Suc ?i)"
  let ?rest = "cost fs (?i + 2) (2 * length ls)"
  have v: "valid_shapes fs" by fact
  have m: "m \<le> length w" by fact
  have i2: "?i + 2 \<le> length fs" using Cons.prems(2) by simp
  have i1: "?i < length fs" using i2 by simp
  have c: "cost fs ?i (2 * length (l # ls)) = ?p1 + ?p2 + ?rest"
    using cost_step [OF i2, of "length ls"] by simp
  have p1: "0 \<le> ?p1" using valid_nth [OF v i1] .
  have p2: "0 \<le> ?p2" using valid_nth [OF v, of "Suc ?i"] i2 by simp
  have r: "0 \<le> ?rest" by (rule cost_nonneg [OF v])
  have tot: "?o + (?p1 + ?p2 + ?rest) \<le> int m" using Cons.prems(4) c by simp
  have fit1: "?o + ?p1 \<le> int m" using tot p2 r by linarith
  have e1: "take_param (take m w) fs cur = take_param w fs cur"
    by (rule take_param_prefix [OF i1 v Cons.prems(3) fit1 m])
  define cur1 where
    "cur1 = \<lparr>flat_shapes_offset = ?i + 1, w_offsets = ?o + ?p1, slices = slices cur @ [(?o, ?o + ?p1)]\<rparr>"
  have "?o + ?p1 \<le> int (length w)" using fit1 m by linarith
  from take_param_ok [OF i1 v Cons.prems(3) this]
  obtain a where t1: "take_param w fs cur = Inr (a, cur1)" by (simp add: cur1_def)
  have j1: "flat_shapes_offset cur1 < length fs" using i2 by (simp add: cur1_def)
  have o1: "0 \<le> w_offsets cur1" using Cons.prems(3) p1 by (simp add: cur1_def)
  have fit2: "w_offsets cur1 + prod_shape (fs ! flat_shapes_offset cur1) \<le> int m"
    using tot r by (simp add: cur1_def)
  have e2: "take_param (take m w) fs cur1 = take_param w fs cur1"
    by (rule take_param_prefix [OF j1 v o1 fit2 m])
  define cur2 where
    "cur2 = \<lparr>flat_shapes_offset = ?i + 2, w_offsets = ?o + ?p1 + ?p2,
             slices = slices cur1 @ [(?o + ?p1, ?o + ?p1 + ?p2)]\<rparr>"
  have "w_offsets cur1 + prod_shape (fs ! flat_shapes_offset cur1) \<le> int (length w)"
    using fit2 m by linarith
  from take_param_ok [OF j1 v o1 this]
  obtain b where t2: "take_param w fs cur1 = Inr (b, cur2)" by (simp add: cur1_def cur2_def)
  have "unpack_loop (take m w) fs ls cur2 (d1(l \<mapsto> a)) (d2(l \<mapsto> b))
      = unpack_loop w fs ls cur2 (d1(l \<mapsto> a)) (d2(l \<mapsto> b))"
    by (rule Cons.IH [OF v _ _ _ m]) (use Cons.prems(2,3) p1 p2 tot in \<open>simp_all add: cur2_def\<close>)
  then show ?case by (simp add: e1 e2 t1 t2)
qed

lemma unpack_run_prefix:
  assumes "0 \<le> input_size" "0 \<le> hidden_size"
    and "get_num_params_in_lstm input_size hidden_size num_layers bidirectional \<le> int m"
    and "m \<le> length w"
  shows "unpack_lstm_weights_run (take m w) input_size hidden_size num_layers bidirectional
       = unpack_lstm_weights_run w input_size hidden_size num_layers bidirectional"
proof -
  let ?fs = "get_params_shapes_in_lstm input_size hidden_size num_layers bidirectional"
  let ?npl = "num_layers * (if bidirectional then 2 else 1)"
  let ?n = "nat ?npl"
  let ?c1 = "cost ?fs 0 (2 * ?n)"
  let ?c2 = "cost ?fs (2 * ?n) (2 * ?n)"
  let ?cur0 = "\<lparr>flat_shapes_offset = 0, w_offsets = 0, slices = []\<rparr>"
  have v: "valid_shapes ?fs" by (rule valid_params_shapes [OF assms(1,2)])
  have len: "length ?fs = 4 * ?n" by (rule length_params_shapes)
  have tot: "get_num_params_in_lstm input_size hidden_size num_layers bidirectional = ?c1 + ?c2"
    by (rule num_params_cost)
  have c1: "0 \<le> ?c1" and c2: "0 \<le> ?c2" by (rule cost_nonneg [OF v])+
  have lr: "length (py_range ?npl) = ?n" by (rule length_py_range)
  have e1: "unpack_loop (take m w) ?fs (py_range ?npl) ?cur0 Map.empty Map.empty
          = unpack_loop w ?fs (py_range ?npl) ?cur0 Map.empty Map.empty"
    by (rule unpack_loop_prefix [OF v _ _ _ assms(4)]) (use len lr c2 tot assms(3) in simp_all)
  have "\<exists>cur' d1' d2' sl.
      unpack_loop w ?fs (py_range ?npl) ?cur0 Map.empty Map.empty = Inr (cur', d1', d2')
    \<and> flat_shapes_offset cur' = flat_shapes_offset ?cur0 + 2 * length (py_range ?npl)
    \<and> w_offsets cur' = w_offsets ?cur0 + cost ?fs (flat_shapes_offset ?cur0) (2 * length (py_range ?npl))
    \<and> slices cur' = slices ?cur0 @ sl
    \<and> tiling (w_offsets ?cur0) sl (w_offsets cur') \<and> length sl = 2 * length (py_range ?npl)
    \<and> flatten_pairs d1' d2' (py_range ?npl)
        = Inr (take (nat (cost ?fs (flat_shapes_offset ?cur0) (2 * length (py_range ?npl))))
                 (drop (nat (w_offsets ?cur0)) w))
    \<and> (\<forall>k. k \<notin> set (py_range ?npl) \<longrightarrow> d1' k = Map.empty k \<and> d2' k = Map.empty k)"
    by (rule unpack_loop_ok [OF v distinct_py_range])
       (use len lr c2 tot assms(3,4) in simp_all)
  then obtain cur1 W_ih W_hh where
    r1: "unpack_loop w ?fs (py_range ?npl) ?cur0 Map.empty Map.empty = Inr (cur1, W_ih, W_hh)"
    and f1: "flat_shapes_offset cur1 = 2 * ?n"
    and o1: "w_offsets cur1 = ?c1"
    by (auto simp: lr)
  have e2: "unpack_loop (take m w) ?fs (py_range ?npl) cur1 Map.empty Map.empty
          = unpack_loop w ?fs (py_range ?npl) cur1 Map.empty Map.empty"
    by (rule unpack_loop_prefix [OF v _ _ _ assms(4)]) (use len lr f1 o1 c1 tot assms(3) in simp_all)
  show ?thesis
    by (simp add: unpack_lstm_weights_run_def Let_def e1 r1 e2)
qed

text \<open>
  C1. For every configuration with non-negative sizes and every buffer whose
  length is the parameter count, unpacking succeeds, and flattening the
  arrays of the four dictionaries in unpack order gives back the buffer.
\<close>

theorem unpack_pack_roundtrip:
  assumes "0 \<le> input_size" "0 \<le> hidden_size"
    and "int (length weights) = get_num_params_in_lstm input_size hidden_size num_layers bidirectional"
  shows "\<exists>ws. unpack_lstm_weights weights input_size hidden_size num_layers bidirectional = Inr ws
            \<and> pack_lstm_weights ws num_layers bidirectional = Inr weights"
proof -
  from unpack_run_ok [OF assms(1,2), of num_layers bidirectional weights] assms(3)
  obtain ws cur where
    "unpack_lstm_weights_run weights input_size hidden_size num_layers bidirectional = Inr (ws, cur)"
    and "pack_lstm_weights ws num_layers bidirectional
         = Inr (take (nat (get_num_params_in_lstm input_size hidden_size num_layers bidirectional)) weights)"
    by auto
  then show ?thesis using assms(3) [symmetric] by (simp add: unpack_lstm_weights_def)
qed

theorem unpack_pack_roundtrip_witness:
  "(0::int) \<le> 1 \<and> (0::int) \<le> 1
   \<and> int (length [1, 2, 3, 4, 5, 6, 7, 8, 9, 10, 11, 12, 13, 14, 15, 16 :: int])
       = get_num_params_in_lstm 1 1 1 False
   \<and> (\<exists>ws. unpack_lstm_weights [1, 2, 3, 4, 5, 6, 7, 8, 9, 10, 11, 12, 13, 14, 15, 16 :: int] 1 1 1 False
              = Inr ws
          \<and> pack_lstm_weights ws 1 False
              = Inr [1, 2, 3, 4, 5, 6, 7, 8, 9, 10, 11, 12, 13, 14, 15, 16 :: int])"
proof -
  have h: "int (length [1, 2, 3, 4, 5, 6, 7, 8, 9, 10, 11, 12, 13, 14, 15, 16 :: int])
           = get_num_params_in_lstm 1 1 1 False"
    by code_simp
  show ?thesis
    using h unpack_pack_roundtrip [OF _ _ h] by simp
qed



text \<open>
  C4, as the code behaves.  There is no length check ahead of the loops.  A
  buffer shorter than the parameter count fails with the reshape error of
  the first slice that comes up short.  A longer buffer is accepted: its
  first elements, as many as the parameter count, are unpacked and the rest
  is ignored.
\<close>

theorem unpack_wrong_length:
  assumes "0 \<le> input_size" "0 \<le> hidden_size"
  shows "(int (length w) < get_num_params_in_lstm input_size hidden_size num_layers bidirectional
          \<longrightarrow> unpack_lstm_weights w input_size hidden_size num_layers bidirectional = Inl TypeError)
       \<and> (get_num_params_in_lstm input_size hidden_size num_layers bidirectional < int (length w)
          \<longrightarrow> (\<exists>ws. unpack_lstm_weights w input_size hidden_size num_layers bidirectional = Inr ws
                 \<and> unpack_lstm_weights
                      (take (nat (get_num_params_in_lstm input_size hidden_size num_layers bidirectional)) w)
                      input_size hidden_size num_layers bidirectional = Inr ws
                 \<and> pack_lstm_weights ws num_layers bidirectional
                      = Inr (take (nat (get_num_params_in_lstm input_size hidden_size num_layers bidirectional)) w)))"
proof (intro conjI impI)
  assume "int (length w) < get_num_params_in_lstm input_size hidden_size num_layers bidirectional"
  from unpack_run_short [OF assms this]
  show "unpack_lstm_weights w input_size hidden_size num_layers bidirectional = Inl TypeError"
    by (simp add: unpack_lstm_weights_def)
next
  let ?t = "get_num_params_in_lstm input_size hidden_size num_layers bidirectional"
  assume lt: "?t < int (length w)"
  then have le: "?t \<le> int (length w)" by simp
  from unpack_run_ok [OF assms le]
  obtain ws cur where
    run: "unpack_lstm_weights_run w input_size hidden_size num_layers bidirectional = Inr (ws, cur)"
    and pk: "pack_lstm_weights ws num_layers bidirectional = Inr (take (nat ?t) w)"
    by auto
  have t0: "0 \<le> ?t"
    unfolding num_params_cost
    by (intro add_nonneg_nonneg cost_nonneg valid_params_shapes assms)
  have "unpack_lstm_weights_run (take (nat ?t) w) input_size hidden_size num_layers bidirectional
      = unpack_lstm_weights_run w input_size hidden_size num_layers bidirectional"
    by (rule unpack_run_prefix [OF assms]) (use t0 le in simp_all)
  with run pk
  show "\<exists>ws. unpack_lstm_weights w input_size hidden_size num_layers bidirectional = Inr ws
                 \<and> unpack_lstm_weights (take (nat ?t) w)
                      input_size hidden_size num_layers bidirectional = Inr ws
                 \<and> pack_lstm_weights ws num_layers bidirectional = Inr (take (nat ?t) w)"
    by (simp add: unpack_lstm_weights_def)
qed

theorem unpack_wrong_length_witness:
  "(0::int) \<le> 1 \<and> (0::int) \<le> 1
   \<and> int (length [1, 2, 3 :: int]) < get_num_params_in_lstm 1 1 1 False
   \<and> unpack_lstm_weights [1, 2, 3 :: int] 1 1 1 False = Inl TypeError
   \<and> get_num_params_in_lstm 1 1 1 False
       < int (length [1, 2, 3, 4, 5, 6, 7, 8, 9, 10, 11, 12, 13, 14, 15, 16, 17 :: int])
   \<and> (\<exists>ws. unpack_lstm_weights [1, 2, 3, 4, 5, 6, 7, 8, 9, 10, 11, 12, 13, 14, 15, 16, 17 :: int]
              1 1 1 False = Inr ws)"
proof -
  have n: "get_num_params_in_lstm 1 1 1 False = 16" by code_simp
  show ?thesis
    using unpack_wrong_length [of 1 1 "[1, 2, 3 :: int]" 1 False]
      unpack_wrong_length [of 1 1 "[1, 2, 3, 4, 5, 6, 7, 8, 9, 10, 11, 12, 13, 14, 15, 16, 17 :: int]" 1 False]
    by (auto simp: n)
qed

text \<open>
  C4, as stated, fails: a buffer one element too long is unpacked without
  any error; and a buffer one element too short fails only in the second
  loop, after the first loop has sliced it twice.
\<close>

theorem unpack_no_length_check_counterexample:
  "int (length [1, 2, 3, 4, 5, 6, 7, 8, 9, 10, 11, 12, 13, 14, 15, 16, 17 :: int])
     \<noteq> get_num_params_in_lstm 1 1 1 False
   \<and> \<not> isl (unpack_lstm_weights [1, 2, 3, 4, 5, 6, 7, 8, 9, 10, 11, 12, 13, 14, 15, 16, 17 :: int]
              1 1 1 False)
   \<and> int (length [1, 2, 3, 4, 5, 6, 7, 8, 9, 10, 11, 12, 13, 14, 15 :: int])
     \<noteq> get_num_params_in_lstm 1 1 1 False
   \<and> map_sum id (\<lambda>r. slices (fst r))
       (unpack_loop [1, 2, 3, 4, 5, 6, 7, 8, 9, 10, 11, 12, 13, 14, 15 :: int]
          (get_params_shapes_in_lstm 1 1 1 False) (py_range 1)
          \<lparr>flat_shapes_offset = 0, w_offsets = 0, slices = []\<rparr> Map.empty Map.empty)
       = Inr [(0, 4), (4, 8)]
   \<and> map_sum id (\<lambda>r. ())
       (unpack_lstm_weights [1, 2, 3, 4, 5, 6, 7, 8, 9, 10, 11, 12, 13, 14, 15 :: int] 1 1 1 False)
       = Inl TypeError"
  by code_simp

section \<open>Reference LSTM and backward rule: direct properties\<close>

text \<open>
  C5. With a non-zero dropout \<open>lstm_ref\<close> raises \<open>NotImplementedError\<close> and
  returns nothing; with dropout zero it never raises that error.
\<close>

theorem dropout_rejected:
  "(dropout \<noteq> 0 \<longrightarrow>
      lstm_ref rt x h_0 c_0 W_ih W_hh b_ih b_hh seq_lengths input_size hidden_size num_layers
        dropout bidirectional = Inl NotImplementedError)
   \<and> (dropout = 0 \<longrightarrow>
      lstm_ref rt x h_0 c_0 W_ih W_hh b_ih b_hh seq_lengths input_size hidden_size num_layers
        dropout bidirectional \<noteq> Inl NotImplementedError)"
  by (simp add: lstm_ref_def split: sum.splits)

theorem dropout_rejected_witness:
  "(1 / 2 :: real) \<noteq> 0
   \<and> lstm_ref real_runtime [[[0]]] [[[0]]] [[[0]]]
        [0 \<mapsto> [[0], [0], [0], [0]]] [0 \<mapsto> [[0], [0], [0], [0]]]
        [0 \<mapsto> [0, 0, 0, 0]] [0 \<mapsto> [0, 0, 0, 0]] [1 :: int] 1 1 1 (1 / 2) False
       = Inl NotImplementedError
   \<and> lstm_ref real_runtime [[[0]]] [[[0]]] [[[0]]]
        [0 \<mapsto> [[0], [0], [0], [0]]] [0 \<mapsto> [[0], [0], [0], [0]]]
        [0 \<mapsto> [0, 0, 0, 0]] [0 \<mapsto> [0, 0, 0, 0]] [1 :: int] 1 1 1 0 False
       \<noteq> Inl NotImplementedError"
  using dropout_rejected [of "1 / 2" real_runtime "[[[0]]]" "[[[0]]]" "[[[0]]]"
      "[0 \<mapsto> [[0], [0], [0], [0]]]" "[0 \<mapsto> [[0], [0], [0], [0]]]"
      "[0 \<mapsto> [0, 0, 0, 0]]" "[0 \<mapsto> [0, 0, 0, 0]]" "[1 :: int]" 1 1 1 False]
    dropout_rejected [of 0 real_runtime "[[[0]]]" "[[[0]]]" "[[[0]]]"
      "[0 \<mapsto> [[0], [0], [0], [0]]]" "[0 \<mapsto> [[0], [0], [0], [0]]]"
      "[0 \<mapsto> [0, 0, 0, 0]]" "[0 \<mapsto> [0, 0, 0, 0]]" "[1 :: int]" 1 1 1 False]
  by simp

text \<open>
  C10. Two calls of \<open>lstm_ref\<close> that differ only in \<open>seq_lengths\<close> return the
  same result, error or value: \<open>seq_lengths\<close> is never read.
\<close>

theorem seq_lengths_ignored:
  "lstm_ref rt x h_0 c_0 W_ih W_hh b_ih b_hh seq_lengths input_size hidden_size num_layers
     dropout bidirectional
   = lstm_ref rt x h_0 c_0 W_ih W_hh b_ih b_hh seq_lengths' input_size hidden_size num_layers
     dropout bidirectional"
  by (simp add: lstm_ref_def)

theorem seq_lengths_ignored_witness:
  "lstm_ref real_runtime [[[0]]] [[[0]]] [[[0]]]
        [0 \<mapsto> [[0], [0], [0], [0]]] [0 \<mapsto> [[0], [0], [0], [0]]]
        [0 \<mapsto> [0, 0, 0, 0]] [0 \<mapsto> [0, 0, 0, 0]] [1 :: int] 1 1 1 0 False
   = lstm_ref real_runtime [[[0]]] [[[0]]] [[[0]]]
        [0 \<mapsto> [[0], [0], [0], [0]]] [0 \<mapsto> [[0], [0], [0], [0]]]
        [0 \<mapsto> [0, 0, 0, 0]] [0 \<mapsto> [0, 0, 0, 0]] [7 :: int] 1 1 1 0 False"
  by (rule seq_lengths_ignored)

text \<open>
  C9. Whenever the backward rule returns, the gradient it returns for
  \<open>seq_lengths\<close> has the shape of \<open>seq_lengths\<close>, as many elements as that
  shape holds, and every element zero; and it returns whenever the backward
  kernel does.
\<close>

theorem seq_lengths_gradient_zero:
  "(lstm_bwd rnn_bwd input_size hidden_size num_layers dropout bidirectional
      (x, h_0, c_0, w, seq_lengths, y, workspace, reserve_space) (dy, dh_n, dc_n)
      = Inr (dx, dh_0, dc_0, dw, dseq)
    \<longrightarrow> dims dseq = dims seq_lengths
      \<and> length (elems dseq) = prod_list (dims seq_lengths)
      \<and> (\<forall>z \<in> set (elems dseq). z = 0))
   \<and> (\<not> isl (rnn_bwd (dy, dh_n, dc_n, x, h_0, c_0, w, y, workspace, reserve_space, seq_lengths)
                (input_size, hidden_size, num_layers, dropout, bidirectional))
    \<longrightarrow> \<not> isl (lstm_bwd rnn_bwd input_size hidden_size num_layers dropout bidirectional
                (x, h_0, c_0, w, seq_lengths, y, workspace, reserve_space) (dy, dh_n, dc_n)))"
  by (auto simp: lstm_bwd_def zeros_like_def split: sum.splits)

theorem seq_lengths_gradient_zero_witness:
  "lstm_bwd (\<lambda>arrays config. Inr (1, 2, 3, 4) :: unit + int \<times> int \<times> int \<times> int) 1 1 1 0 False
      (0, 0, 0, 0, \<lparr>dims = [3], elems = [5, 5, 5 :: int]\<rparr>, 0, 0, 0) (0, 0, 0)
      = Inr (1, 2, 3, 4, \<lparr>dims = [3], elems = [0, 0, 0]\<rparr>)
   \<and> dims \<lparr>dims = [3], elems = [0, 0, 0 :: int]\<rparr> = dims \<lparr>dims = [3], elems = [5, 5, 5 :: int]\<rparr>
   \<and> set (elems \<lparr>dims = [3 :: nat], elems = [0, 0, 0 :: int]\<rparr>) = {0}"
proof -
  have r: "lstm_bwd (\<lambda>arrays config. Inr (1, 2, 3, 4) :: unit + int \<times> int \<times> int \<times> int) 1 1 1 0 False
      (0, 0, 0, 0, \<lparr>dims = [3], elems = [5, 5, 5 :: int]\<rparr>, 0, 0, 0) (0, 0, 0)
      = Inr (1, 2, 3, 4, \<lparr>dims = [3], elems = [0, 0, 0]\<rparr>)"
    by (simp add: lstm_bwd_def zeros_like_def numeral_3_eq_3)
  show ?thesis
    using r seq_lengths_gradient_zero
      [of "\<lambda>arrays config. Inr (1, 2, 3, 4) :: unit + int \<times> int \<times> int \<times> int" 1 1 1 0 False
          0 0 0 0 "\<lparr>dims = [3], elems = [5, 5, 5 :: int]\<rparr>" 0 0 0 0 0 0 1 2 3 4
          "\<lparr>dims = [3], elems = [0, 0, 0]\<rparr>"]
    by simp
qed

section \<open>Reference cell: properties\<close>

lemma bind_res_Inr [simp]: "bind_res (Inr v) f = f v"
  by (simp add: bind_res_def)

lemma bind_res_Inl [simp]: "bind_res (Inl e) f = Inl e"
  by (simp add: bind_res_def)

lemma bind_res_eq_Inr:
  "bind_res m f = Inr y \<longleftrightarrow> (\<exists>v. m = Inr v \<and> f v = Inr y)"
  by (cases m) simp_all

lemma sequence_res_map:
  "(\<And>v. v \<in> set xs \<Longrightarrow> F v = Inr (g v)) \<Longrightarrow> sequence_res (map F xs) = Inr (map g xs)"
  by (induction xs) simp_all

lemma mat_shape_row: "mat_shape r c A \<Longrightarrow> row \<in> set A \<Longrightarrow> length row = c"
  by (simp add: mat_shape_def list_all_iff)

lemma mat_shape_nth: "mat_shape r c A \<Longrightarrow> i < r \<Longrightarrow> length (A ! i) = c"
  by (simp add: mat_shape_def list_all_length)

lemma mat_shape_length: "mat_shape r c A \<Longrightarrow> length A = r"
  by (simp add: mat_shape_def)

lemma mat_shapeI: "length A = r \<Longrightarrow> (\<And>i. i < r \<Longrightarrow> length (A ! i) = c) \<Longrightarrow> mat_shape r c A"
  by (simp add: mat_shape_def list_all_length)

lemma broadcast2_same:
  assumes "mat_shape r c A" "mat_shape r c B"
  shows "broadcast2 f A B = Inr (map2 (map2 f) A B)"
proof -
  have len: "length A = length B" using assms by (simp add: mat_shape_def)
  have "sequence_res (map (\<lambda>(u, v). broadcast1 f u v) (zip A B))
        = Inr (map (\<lambda>(u, v). map2 f u v) (zip A B))"
  proof (rule sequence_res_map)
    fix p assume p: "p \<in> set (zip A B)"
    obtain u v where uv: "p = (u, v)" by (cases p)
    with p have "u \<in> set A" "v \<in> set B" by (auto dest: set_zip_leftD set_zip_rightD)
    then have "length u = length v"
      using assms by (simp add: mat_shape_row)
    then show "(case p of (u, v) \<Rightarrow> broadcast1 f u v) = Inr (case p of (u, v) \<Rightarrow> map2 f u v)"
      by (simp add: uv broadcast1_def)
  qed
  then show ?thesis using len by (simp add: broadcast2_def)
qed

lemma broadcast2_row:
  assumes "mat_shape r c A" "length v = c"
  shows "broadcast2 f A [v] = Inr (map (\<lambda>u. map2 f u v) A)"
proof -
  have rows: "u \<in> set A \<Longrightarrow> broadcast1 f u v = Inr (map2 f u v)" for u
    using assms by (simp add: broadcast1_def mat_shape_row)
  show ?thesis
  proof (cases "length A = 1")
    case True
    then obtain u where A: "A = [u]" by (cases A) simp_all
    then show ?thesis using rows by (simp add: broadcast2_def)
  next
    case False
    have "sequence_res (map (\<lambda>u. broadcast1 f u v) A) = Inr (map (\<lambda>u. map2 f u v) A)"
      by (rule sequence_res_map) (rule rows)
    with False show ?thesis by (simp add: broadcast2_def)
  qed
qed

lemma matmul_nt_ok:
  assumes "mat_shape r k x" "mat_shape m k W"
  shows "matmul_nt rt x W = Inr (map (\<lambda>row. map (\<lambda>w. rt_dot rt row w) W) x)"
  using assms by (auto simp: matmul_nt_def mat_shape_def list_all_iff)

lemma jnp_split4_ok:
  assumes "length a = 4 * k"
  shows "jnp_split4 a = Inr (take k a, take k (drop k a), take k (drop (2 * k) a), take k (drop (3 * k) a))"
  using assms by (simp add: jnp_split4_def Let_def)

text \<open>The pre-activation of one gate on arrays of matching shapes.\<close>

lemma gate_input_ok:
  assumes x: "mat_shape B I x" and h: "mat_shape B H h"
    and Wi: "mat_shape H I W_i" and Wh: "mat_shape H H W_h"
    and bi: "length b_i = H" and bh: "length b_h = H"
  shows "\<exists>Z. gate_input rt x W_i b_i h W_h b_h = Inr Z \<and> mat_shape B H Z
       \<and> (\<forall>b < B. \<forall>j < H. Z ! b ! j =
            rt_add rt (rt_add rt (rt_add rt (rt_dot rt (x ! b) (W_i ! j)) (b_i ! j))
                         (rt_dot rt (h ! b) (W_h ! j))) (b_h ! j))"
proof -
  define X where "X = map (\<lambda>row. map (\<lambda>w. rt_dot rt row w) W_i) x"
  define S1 where "S1 = map (\<lambda>u. map2 (rt_add rt) u b_i) X"
  define Y where "Y = map (\<lambda>row. map (\<lambda>w. rt_dot rt row w) W_h) h"
  define S2 where "S2 = map2 (map2 (rt_add rt)) S1 Y"
  define Z where "Z = map (\<lambda>u. map2 (rt_add rt) u b_h) S2"
  have lB: "length x = B" "length h = B" and lH: "length W_i = H" "length W_h = H"
    using x h Wi Wh by (simp_all add: mat_shape_def)
  have sX: "mat_shape B H X" by (rule mat_shapeI) (simp_all add: X_def lB lH)
  have sS1: "mat_shape B H S1" by (rule mat_shapeI) (simp_all add: S1_def X_def lB lH bi)
  have sY: "mat_shape B H Y" by (rule mat_shapeI) (simp_all add: Y_def lB lH)
  have sS2: "mat_shape B H S2"
    by (rule mat_shapeI) (simp_all add: S2_def S1_def X_def Y_def lB lH bi)
  have sZ: "mat_shape B H Z"
    by (rule mat_shapeI) (simp_all add: Z_def S2_def S1_def X_def Y_def lB lH bi bh)
  have 1: "matmul_nt rt x W_i = Inr X" unfolding X_def by (rule matmul_nt_ok [OF x Wi])
  have 2: "broadcast2 (rt_add rt) X [b_i] = Inr S1" unfolding S1_def by (rule broadcast2_row [OF sX bi])
  have 3: "matmul_nt rt h W_h = Inr Y" unfolding Y_def by (rule matmul_nt_ok [OF h Wh])
  have 4: "broadcast2 (rt_add rt) S1 Y = Inr S2" unfolding S2_def by (rule broadcast2_same [OF sS1 sY])
  have 5: "broadcast2 (rt_add rt) S2 [b_h] = Inr Z" unfolding Z_def by (rule broadcast2_row [OF sS2 bh])
  have run: "gate_input rt x W_i b_i h W_h b_h = Inr Z"
    by (simp add: gate_input_def 1 2 3 4 5)
  have "Z ! b ! j = rt_add rt (rt_add rt (rt_add rt (rt_dot rt (x ! b) (W_i ! j)) (b_i ! j))
                         (rt_dot rt (h ! b) (W_h ! j))) (b_h ! j)"
    if "b < B" "j < H" for b j
    using that by (simp add: Z_def S2_def S1_def X_def Y_def lB lH bi bh)
  with run sZ show ?thesis by blast
qed

lemma block_shape:
  assumes "mat_shape (4 * H) I W" "n + H \<le> 4 * H"
  shows "mat_shape H I (take H (drop n W))"
proof (rule mat_shapeI)
  show "length (take H (drop n W)) = H"
    using assms by (simp add: mat_shape_def)
next
  fix i assume "i < H"
  then have "take H (drop n W) ! i = W ! (n + i)" "n + i < 4 * H"
    using assms by (simp_all add: mat_shape_def)
  then show "length (take H (drop n W) ! i) = I"
    using assms(1) by (simp add: mat_shape_nth)
qed

lemma block_nth:
  assumes "length a = 4 * H" "n + H \<le> 4 * H" "j < H"
  shows "take H (drop n a) ! j = a ! (n + j)"
  using assms by simp

lemma block_length:
  assumes "length a = 4 * H" "n + H \<le> 4 * H"
  shows "length (take H (drop n a)) = H"
  using assms by simp

lemma map_map_shape: "mat_shape r c A \<Longrightarrow> mat_shape r c (map (map f) A)"
  by (simp add: mat_shape_def list_all_iff)

lemma map2_map2_shape:
  "mat_shape r c A \<Longrightarrow> mat_shape r c B \<Longrightarrow> mat_shape r c (map2 (map2 f) A B)"
  by (rule mat_shapeI) (simp_all add: mat_shape_def list_all_length)

lemma map2_map2_nth:
  "mat_shape r c A \<Longrightarrow> mat_shape r c B \<Longrightarrow> i < r \<Longrightarrow> j < c \<Longrightarrow>
   map2 (map2 f) A B ! i ! j = f (A ! i ! j) (B ! i ! j)"
  by (simp add: mat_shape_def list_all_length)

lemma map_map_nth:
  "mat_shape r c A \<Longrightarrow> i < r \<Longrightarrow> j < c \<Longrightarrow> map (map f) A ! i ! j = f (A ! i ! j)"
  by (simp add: mat_shape_def list_all_length)

text \<open>One step of the cell on arrays of the documented shapes.\<close>

lemma lstm_cell_ok:
  assumes x: "mat_shape B I x" and h: "mat_shape B H h" and c: "mat_shape B H c"
    and Wih: "mat_shape (4 * H) I W_ih" and Whh: "mat_shape (4 * H) H W_hh"
    and bih: "length b_ih = 4 * H" and bhh: "length b_hh = 4 * H"
  shows "\<exists>h' c'. lstm_cell rt W_ih W_hh b_ih b_hh (h, c) x = Inr ((h', c'), h')
       \<and> mat_shape B H h' \<and> mat_shape B H c'
       \<and> (\<forall>b < B. \<forall>j < H.
            c' ! b ! j = cell_entry_c rt x h c W_ih W_hh b_ih b_hh H b j
          \<and> h' ! b ! j = cell_entry_h rt x h c W_ih W_hh b_ih b_hh H b j)"
proof -
  have lW: "length W_ih = 4 * H" "length W_hh = 4 * H"
    using Wih Whh by (simp_all add: mat_shape_def)
  have gate: "\<exists>Z. gate_input rt x (take H (drop n W_ih)) (take H (drop n b_ih)) h
                     (take H (drop n W_hh)) (take H (drop n b_hh)) = Inr Z
              \<and> mat_shape B H Z
              \<and> (\<forall>b < B. \<forall>j < H. Z ! b ! j = gate_entry rt x h W_ih W_hh b_ih b_hh H k b j)"
    if n: "n = k * H" "k < 4" for n k
  proof -
    have le: "n + H \<le> 4 * H"
    proof -
      have "Suc k \<le> 4" using n(2) by simp
      then have "Suc k * H \<le> 4 * H" by (rule mult_le_mono1)
      then show ?thesis using n(1) by simp
    qed
    from gate_input_ok [OF x h block_shape [OF Wih le] block_shape [OF Whh le]
        block_length [OF bih le] block_length [OF bhh le], of rt]
    obtain Z where
      "gate_input rt x (take H (drop n W_ih)) (take H (drop n b_ih)) h
          (take H (drop n W_hh)) (take H (drop n b_hh)) = Inr Z"
      "mat_shape B H Z"
      and e: "\<forall>b < B. \<forall>j < H. Z ! b ! j =
            rt_add rt (rt_add rt (rt_add rt (rt_dot rt (x ! b) (take H (drop n W_ih) ! j))
                                    (take H (drop n b_ih) ! j))
                         (rt_dot rt (h ! b) (take H (drop n W_hh) ! j))) (take H (drop n b_hh) ! j)"
      by blast
    moreover have "Z ! b ! j = gate_entry rt x h W_ih W_hh b_ih b_hh H k b j"
      if "b < B" "j < H" for b j
      using e that block_nth [OF lW(1) le that(2)] block_nth [OF lW(2) le that(2)]
        block_nth [OF bih le that(2)] block_nth [OF bhh le that(2)]
      by (simp only: gate_entry_def n(1))
    ultimately show ?thesis by blast
  qed
  from gate [of 0 0] obtain Zi where
    zi: "gate_input rt x (take H W_ih) (take H b_ih) h (take H W_hh) (take H b_hh) = Inr Zi"
    and si: "mat_shape B H Zi"
    and ei: "\<forall>b < B. \<forall>j < H. Zi ! b ! j = gate_entry rt x h W_ih W_hh b_ih b_hh H 0 b j"
    by auto
  from gate [of H 1] obtain Zf where
    zf: "gate_input rt x (take H (drop H W_ih)) (take H (drop H b_ih)) h
           (take H (drop H W_hh)) (take H (drop H b_hh)) = Inr Zf"
    and sf: "mat_shape B H Zf"
    and ef: "\<forall>b < B. \<forall>j < H. Zf ! b ! j = gate_entry rt x h W_ih W_hh b_ih b_hh H 1 b j"
    by auto
  from gate [of "2 * H" 2] obtain Zg where
    zg: "gate_input rt x (take H (drop (2 * H) W_ih)) (take H (drop (2 * H) b_ih)) h
           (take H (drop (2 * H) W_hh)) (take H (drop (2 * H) b_hh)) = Inr Zg"
    and sg: "mat_shape B H Zg"
    and eg: "\<forall>b < B. \<forall>j < H. Zg ! b ! j = gate_entry rt x h W_ih W_hh b_ih b_hh H 2 b j"
    by auto
  from gate [of "3 * H" 3] obtain Zo where
    zo: "gate_input rt x (take H (drop (3 * H) W_ih)) (take H (drop (3 * H) b_ih)) h
           (take H (drop (3 * H) W_hh)) (take H (drop (3 * H) b_hh)) = Inr Zo"
    and so: "mat_shape B H Zo"
    and eo: "\<forall>b < B. \<forall>j < H. Zo ! b ! j = gate_entry rt x h W_ih W_hh b_ih b_hh H 3 b j"
    by auto
  define i_t where "i_t = map (map (rt_sigmoid rt)) Zi"
  define f_t where "f_t = map (map (rt_sigmoid rt)) Zf"
  define g_t where "g_t = map (map (rt_tanh rt)) Zg"
  define o_t where "o_t = map (map (rt_sigmoid rt)) Zo"
  define fc where "fc = map2 (map2 (rt_mul rt)) f_t c"
  define ig where "ig = map2 (map2 (rt_mul rt)) i_t g_t"
  define c' where "c' = map2 (map2 (rt_add rt)) fc ig"
  define tc where "tc = map (map (rt_tanh rt)) c'"
  define h' where "h' = map2 (map2 (rt_mul rt)) o_t tc"
  have s_i: "mat_shape B H i_t" unfolding i_t_def by (rule map_map_shape [OF si])
  have s_f: "mat_shape B H f_t" unfolding f_t_def by (rule map_map_shape [OF sf])
  have s_g: "mat_shape B H g_t" unfolding g_t_def by (rule map_map_shape [OF sg])
  have s_o: "mat_shape B H o_t" unfolding o_t_def by (rule map_map_shape [OF so])
  have s_fc: "mat_shape B H fc" unfolding fc_def by (rule map2_map2_shape [OF s_f c])
  have s_ig: "mat_shape B H ig" unfolding ig_def by (rule map2_map2_shape [OF s_i s_g])
  have s_c': "mat_shape B H c'" unfolding c'_def by (rule map2_map2_shape [OF s_fc s_ig])
  have s_tc: "mat_shape B H tc" unfolding tc_def by (rule map_map_shape [OF s_c'])
  have s_h': "mat_shape B H h'" unfolding h'_def by (rule map2_map2_shape [OF s_o s_tc])
  have b1: "broadcast2 (rt_mul rt) f_t c = Inr fc"
    unfolding fc_def by (rule broadcast2_same [OF s_f c])
  have b2: "broadcast2 (rt_mul rt) i_t g_t = Inr ig"
    unfolding ig_def by (rule broadcast2_same [OF s_i s_g])
  have b3: "broadcast2 (rt_add rt) fc ig = Inr c'"
    unfolding c'_def by (rule broadcast2_same [OF s_fc s_ig])
  have b4: "broadcast2 (rt_mul rt) o_t tc = Inr h'"
    unfolding h'_def by (rule broadcast2_same [OF s_o s_tc])
  have run: "lstm_cell rt W_ih W_hh b_ih b_hh (h, c) x = Inr ((h', c'), h')"
    by (simp add: lstm_cell_def jnp_split4_ok [OF lW(1)] jnp_split4_ok [OF lW(2)]
        jnp_split4_ok [OF bih] jnp_split4_ok [OF bhh] zi zf zg zo Let_def
        i_t_def [symmetric] f_t_def [symmetric] g_t_def [symmetric] o_t_def [symmetric]
        b1 b2 b3 tc_def [symmetric] b4)
  have ent: "c' ! b ! j = cell_entry_c rt x h c W_ih W_hh b_ih b_hh H b j
          \<and> h' ! b ! j = cell_entry_h rt x h c W_ih W_hh b_ih b_hh H b j"
    if bj: "b < B" "j < H" for b j
  proof -
    have i: "i_t ! b ! j = rt_sigmoid rt (gate_entry rt x h W_ih W_hh b_ih b_hh H 0 b j)"
      unfolding i_t_def using map_map_nth [OF si bj] ei bj by simp
    have f: "f_t ! b ! j = rt_sigmoid rt (gate_entry rt x h W_ih W_hh b_ih b_hh H 1 b j)"
      unfolding f_t_def using map_map_nth [OF sf bj] ef bj by simp
    have g: "g_t ! b ! j = rt_tanh rt (gate_entry rt x h W_ih W_hh b_ih b_hh H 2 b j)"
      unfolding g_t_def using map_map_nth [OF sg bj] eg bj by simp
    have o: "o_t ! b ! j = rt_sigmoid rt (gate_entry rt x h W_ih W_hh b_ih b_hh H 3 b j)"
      unfolding o_t_def using map_map_nth [OF so bj] eo bj by simp
    have cc: "c' ! b ! j = cell_entry_c rt x h c W_ih W_hh b_ih b_hh H b j"
      unfolding c'_def fc_def ig_def cell_entry_c_def Let_def
      using map2_map2_nth [OF s_fc s_ig bj, of "rt_add rt"]
        map2_map2_nth [OF s_f c bj, of "rt_mul rt"]
        map2_map2_nth [OF s_i s_g bj, of "rt_mul rt"] i f g
      by (simp add: fc_def ig_def)
    have "h' ! b ! j = rt_mul rt (o_t ! b ! j) (rt_tanh rt (c' ! b ! j))"
      unfolding h'_def tc_def
      using map2_map2_nth [OF s_o s_tc bj, of "rt_mul rt"] map_map_nth [OF s_c' bj, of "rt_tanh rt"]
      by (simp add: tc_def)
    then have "h' ! b ! j = cell_entry_h rt x h c W_ih W_hh b_ih b_hh H b j"
      by (simp add: cell_entry_h_def Let_def o cc)
    with cc show ?thesis by simp
  qed
  from run s_h' s_c' ent show ?thesis by blast
qed

text \<open>
  C6. On a previous state \<open>(h, c)\<close> and an input \<open>x\<close> of batch size \<open>B\<close>, with
  gate-stacked parameters of \<open>4H\<close> rows, one step of the cell returns
  \<open>((h', c'), h')\<close> where, for every batch row \<open>b\<close> and hidden unit \<open>j\<close>, gate
  \<open>k\<close> (0 input, 1 forget, 2 candidate, 3 output) reads row \<open>k * H + j\<close> of
  \<open>W_ih\<close>, \<open>W_hh\<close>, \<open>b_ih\<close>, \<open>b_hh\<close>, its pre-activation is
  \<open>x\<^sub>b \<cdot> W_ih[kH+j] + b_ih[kH+j] + h\<^sub>b \<cdot> W_hh[kH+j] + b_hh[kH+j]\<close>,
  \<open>c' = f * c + i * g\<close> and \<open>h' = o * tanh c'\<close>, with sigmoid on the input,
  forget and output gates and tanh on the candidate.
\<close>

theorem lstm_cell_step:
  assumes "mat_shape B I x" "mat_shape B H h" "mat_shape B H c"
    and "mat_shape (4 * H) I W_ih" "mat_shape (4 * H) H W_hh"
    and "length b_ih = 4 * H" "length b_hh = 4 * H"
  shows "\<exists>h' c'. lstm_cell rt W_ih W_hh b_ih b_hh (h, c) x = Inr ((h', c'), h')
       \<and> mat_shape B H h' \<and> mat_shape B H c'
       \<and> (\<forall>b < B. \<forall>j < H.
            c' ! b ! j =
              rt_add rt
                (rt_mul rt (rt_sigmoid rt (gate_entry rt x h W_ih W_hh b_ih b_hh H 1 b j)) (c ! b ! j))
                (rt_mul rt (rt_sigmoid rt (gate_entry rt x h W_ih W_hh b_ih b_hh H 0 b j))
                           (rt_tanh rt (gate_entry rt x h W_ih W_hh b_ih b_hh H 2 b j)))
          \<and> h' ! b ! j =
              rt_mul rt (rt_sigmoid rt (gate_entry rt x h W_ih W_hh b_ih b_hh H 3 b j))
                        (rt_tanh rt (c' ! b ! j)))"
proof -
  from lstm_cell_ok [OF assms, of rt]
  obtain h' c' where
    run: "lstm_cell rt W_ih W_hh b_ih b_hh (h, c) x = Inr ((h', c'), h')"
    and sh: "mat_shape B H h'" "mat_shape B H c'"
    and ent: "\<forall>b < B. \<forall>j < H.
            c' ! b ! j = cell_entry_c rt x h c W_ih W_hh b_ih b_hh H b j
          \<and> h' ! b ! j = cell_entry_h rt x h c W_ih W_hh b_ih b_hh H b j"
    by blast
  have "\<forall>b < B. \<forall>j < H.
            c' ! b ! j =
              rt_add rt
                (rt_mul rt (rt_sigmoid rt (gate_entry rt x h W_ih W_hh b_ih b_hh H 1 b j)) (c ! b ! j))
                (rt_mul rt (rt_sigmoid rt (gate_entry rt x h W_ih W_hh b_ih b_hh H 0 b j))
                           (rt_tanh rt (gate_entry rt x h W_ih W_hh b_ih b_hh H 2 b j)))
          \<and> h' ! b ! j =
              rt_mul rt (rt_sigmoid rt (gate_entry rt x h W_ih W_hh b_ih b_hh H 3 b j))
                        (rt_tanh rt (c' ! b ! j))"
    using ent by (simp add: cell_entry_c_def cell_entry_h_def Let_def)
  with run sh show ?thesis by blast
qed

theorem lstm_cell_step_witness:
  "mat_shape 1 2 [[1, 2 :: real]] \<and> mat_shape 1 1 [[3 :: real]] \<and> mat_shape 1 1 [[5 :: real]]
   \<and> mat_shape (4 * 1) 2 [[1, 0], [0, 1], [1, 1], [2, 0 :: real]]
   \<and> mat_shape (4 * 1) 1 [[1], [2], [3], [4 :: real]]
   \<and> length [1, 0, 0, 1 :: real] = 4 * 1 \<and> length [0, 1, 1, 0 :: real] = 4 * 1
   \<and> (\<exists>h' c'. lstm_cell
          real_runtime
          [[1, 0], [0, 1], [1, 1], [2, 0]] [[1], [2], [3], [4]] [1, 0, 0, 1] [0, 1, 1, 0]
          ([[3]], [[5]]) [[1, 2]] = Inr ((h', c'), h')
        \<and> mat_shape 1 1 h' \<and> mat_shape 1 1 c')"
proof -
  have s: "mat_shape 1 2 [[1, 2 :: real]]" "mat_shape 1 1 [[3 :: real]]" "mat_shape 1 1 [[5 :: real]]"
    "mat_shape (4 * 1) 2 [[1, 0], [0, 1], [1, 1], [2, 0 :: real]]"
    "mat_shape (4 * 1) 1 [[1], [2], [3], [4 :: real]]"
    "length [1, 0, 0, 1 :: real] = 4 * 1" "length [0, 1, 1, 0 :: real] = 4 * 1"
    by (simp_all add: mat_shape_def)
  let ?rt = "real_runtime"
  from lstm_cell_step [OF s, of ?rt]
  obtain h' c' where
    "lstm_cell ?rt [[1, 0], [0, 1], [1, 1], [2, 0]] [[1], [2], [3], [4]] [1, 0, 0, 1] [0, 1, 1, 0]
          ([[3]], [[5]]) [[1, 2]] = Inr ((h', c'), h')"
    "mat_shape 1 1 h'" "mat_shape 1 1 c'"
    by (elim exE conjE) (rule that; assumption)
  then have "\<exists>h' c'. lstm_cell ?rt
          [[1, 0], [0, 1], [1, 1], [2, 0]] [[1], [2], [3], [4]] [1, 0, 0, 1] [0, 1, 1, 0]
          ([[3]], [[5]]) [[1, 2]] = Inr ((h', c'), h')
        \<and> mat_shape 1 1 h' \<and> mat_shape 1 1 c'"
    by (intro exI conjI)
  with s show ?thesis by simp
qed

section \<open>Scans and the bidirectional layer\<close>

lemma lstm_cell_out:
  "lstm_cell rt W_ih W_hh b_ih b_hh carry x = Inr (carry', y) \<Longrightarrow> y = fst carry'"
  by (auto simp: lstm_cell_def bind_res_eq_Inr Let_def split: prod.splits)

lemma same_shape_refl: "same_shape A A"
  by (simp add: same_shape_def)

lemma same_shape_trans: "same_shape A B \<Longrightarrow> same_shape B C \<Longrightarrow> same_shape A C"
  by (simp add: same_shape_def)

lemma same_shape_sym: "same_shape A B \<Longrightarrow> same_shape B A"
  by (simp add: same_shape_def)

text \<open>
  A scan whose step returns its new hidden state as output: the outputs are
  as many as the inputs, the last one is the final hidden state, and all of
  them have the shape of the initial hidden state.
\<close>

lemma scan_forward_props:
  assumes out: "\<And>carry x carry' y. f carry x = Inr (carry', y) \<Longrightarrow> y = fst carry'"
    and run: "scan_forward f carry xs = Inr (final, ys)"
  shows "length ys = length xs
       \<and> (xs \<noteq> [] \<longrightarrow> last ys = fst final)
       \<and> (\<forall>y \<in> set ys. same_shape y (fst carry))
       \<and> same_shape (fst final) (fst carry) \<and> same_shape (snd final) (snd carry)"
  using run
proof (induction xs arbitrary: carry final ys)
  case Nil
  then show ?case by (auto simp: same_shape_refl)
next
  case (Cons x xs)
  from Cons.prems obtain carry' y final' ys' where
    step: "f carry x = Inr (carry', y)"
    and sh: "same_shape (fst carry') (fst carry)" "same_shape (snd carry') (snd carry)"
    and rest: "scan_forward f carry' xs = Inr (final', ys')"
    and res: "final = final'" "ys = y # ys'"
    by (auto simp: bind_res_eq_Inr split: prod.splits if_splits)
  have y: "y = fst carry'" by (rule out [OF step])
  from Cons.IH [OF rest]
  have ih: "length ys' = length xs" "xs \<noteq> [] \<longrightarrow> last ys' = fst final'"
    "\<forall>y \<in> set ys'. same_shape y (fst carry')"
    "same_shape (fst final') (fst carry')" "same_shape (snd final') (snd carry')"
    by simp_all
  have l: "last ys = fst final"
  proof (cases xs)
    case Nil
    with rest have "final' = carry'" "ys' = []" by simp_all
    then show ?thesis using res y by simp
  next
    case (Cons a as)
    then have "ys' \<noteq> []" using ih(1) by auto
    then show ?thesis using res ih(2) Cons by simp
  qed
  have "\<forall>z \<in> set ys. same_shape z (fst carry)"
    using res y sh(1) ih(3) by (auto intro: same_shape_trans)
  moreover have "same_shape (fst final) (fst carry)" "same_shape (snd final) (snd carry)"
    using res ih(4,5) sh by (auto intro: same_shape_trans)
  ultimately show ?case using l res ih(1) by simp
qed

lemma lax_scan_props:
  assumes out: "\<And>carry x carry' y. f carry x = Inr (carry', y) \<Longrightarrow> y = fst carry'"
    and run: "lax_scan f carry xs reverse = Inr (final, ys)"
  shows "length ys = length xs
       \<and> (xs \<noteq> [] \<longrightarrow> (if reverse then hd ys else last ys) = fst final)
       \<and> (\<forall>y \<in> set ys. same_shape y (fst carry))
       \<and> same_shape (fst final) (fst carry) \<and> same_shape (snd final) (snd carry)"
proof (cases reverse)
  case False
  with run have r: "scan_forward f carry xs = Inr (final, ys)" by (simp add: lax_scan_def)
  from scan_forward_props [OF out r] False show ?thesis by simp
next
  case True
  with run obtain ys' where r: "scan_forward f carry (rev xs) = Inr (final, ys')"
    and ys: "ys = rev ys'"
    by (auto simp: lax_scan_def bind_res_eq_Inr split: prod.splits)
  from scan_forward_props [OF out r]
  have p: "length ys' = length xs" "xs \<noteq> [] \<longrightarrow> last ys' = fst final"
    "\<forall>y \<in> set ys'. same_shape y (fst carry)"
    "same_shape (fst final) (fst carry)" "same_shape (snd final) (snd carry)"
    by simp_all
  have "xs \<noteq> [] \<longrightarrow> hd ys = fst final"
  proof
    assume "xs \<noteq> []"
    then have "ys' \<noteq> []" using p(1) by auto
    then show "hd ys = fst final" using ys p(2) \<open>xs \<noteq> []\<close> by (simp add: hd_rev)
  qed
  then show ?thesis using True p ys by simp
qed

lemma py_range_1: "py_range 1 = [0]"
  by (simp add: py_range_def)

lemma py_range_2: "py_range 2 = [0, 1]"
  by (simp add: py_range_def numeral_2_eq_2)

lemma jnp_index_0: "a \<noteq> [] \<Longrightarrow> jnp_index a 0 = Inr (a ! 0)"
  by (simp add: jnp_index_def Let_def)

lemma jnp_index_1: "length a = 2 \<Longrightarrow> jnp_index a 1 = Inr (a ! 1)"
  by (auto simp: jnp_index_def Let_def)

lemma same_shape_mat_shape: "same_shape A B \<Longrightarrow> mat_shape r c B \<Longrightarrow> mat_shape r c A"
  unfolding same_shape_def mat_shape_def list_all_iff
  by (metis length_map in_set_conv_nth nth_map)

lemma layer_scan_props:
  assumes run: "layer_scan rt h_0 c_0 params l xs reverse = Inr (final, ys)"
    and idx: "jnp_index h_0 l = Inr hl"
  shows "length ys = length xs
       \<and> (xs \<noteq> [] \<longrightarrow> (if reverse then hd ys else last ys) = fst final)
       \<and> (\<forall>y \<in> set ys. same_shape y hl)
       \<and> same_shape (fst final) hl"
proof -
  obtain W_ih W_hh b_ih b_hh where p: "params = (W_ih, W_hh, b_ih, b_hh)" by (cases params)
  from run idx obtain Wi Wh bi bh cl where
    "lax_scan (lstm_cell rt Wi Wh bi bh) (hl, cl) xs reverse = Inr (final, ys)"
    by (auto simp: layer_scan_def p bind_res_eq_Inr)
  from lax_scan_props [OF lstm_cell_out this] show ?thesis by simp
qed

lemma transpose_rect_nth:
  assumes "xs \<noteq> []" "\<And>i. i < length xs \<Longrightarrow> length (xs ! i) = n" "b < n"
  shows "length (transpose xs) = n"
    and "transpose xs ! b = map (\<lambda>t. xs ! t ! b) [0..<length xs]"
proof -
  have "transpose xs = map (\<lambda>i. map (\<lambda>j. xs ! j ! i) [0..<length xs]) [0..<n]"
    by (rule transpose_rectangle) (use assms in simp_all)
  then show "length (transpose xs) = n"
    and "transpose xs ! b = map (\<lambda>t. xs ! t ! b) [0..<length xs]"
    using assms(3) by simp_all
qed

lemma transpose_rect_length:
  assumes "xs \<noteq> []" "\<And>i. i < length xs \<Longrightarrow> length (xs ! i) = n"
  shows "length (transpose xs) = n"
proof -
  have "transpose xs = map (\<lambda>i. map (\<lambda>j. xs ! j ! i) [0..<length xs]) [0..<n]"
    by (rule transpose_rectangle) (use assms in simp_all)
  then show ?thesis by simp
qed

text \<open>The whole bidirectional single-layer run, taken apart.\<close>

lemma bidirectional_single_layer:
  assumes run: "lstm_ref_run rt x h_0 c_0 params 1 True = Inr (y, h_n, c_n)"
    and x: "mat_shape B T x" "0 < B" "0 < T"
    and h0: "length h_0 = 2" "mat_shape Bh H (h_0 ! 0)" "mat_shape Bh H (h_0 ! 1)"
  shows "length h_n = 2 \<and> length y = Bh
       \<and> (\<forall>b < Bh. length (y ! b) = T
            \<and> (\<forall>t < T. length (y ! b ! t) = 2 * H)
            \<and> take H (last (y ! b)) = h_n ! 0 ! b
            \<and> drop H (hd (y ! b)) = h_n ! 1 ! b)"
proof -
  define xs where "xs = transpose_102 x"
  have lx: "length x = B" "\<And>i. i < length x \<Longrightarrow> length (x ! i) = T"
    using x(1) by (simp_all add: mat_shape_def list_all_length)
  have "x \<noteq> []" using lx(1) x(2) by auto
  from transpose_rect_length [OF this lx(2)]
  have lxs: "length xs = T" by (simp add: xs_def transpose_102_def)
  have xs_ne: "xs \<noteq> []" using lxs x(3) by auto
  have i0: "jnp_index h_0 0 = Inr (h_0 ! 0)" using h0(1) by (intro jnp_index_0) auto
  have i1: "jnp_index h_0 1 = Inr (h_0 ! 1)" using h0(1) by (rule jnp_index_1)
  from run obtain final0 fwd final1 bwd seq' where
    s0: "layer_scan rt h_0 c_0 params 0 xs False = Inr (final0, fwd)"
    and s1: "layer_scan rt h_0 c_0 params 1 xs True = Inr (final1, bwd)"
    and cat: "concatenate_last fwd bwd = Inr seq'"
    and hn: "h_n = [fst final0, fst final1]"
    and yy: "y = transpose_102 seq'"
    by (auto simp: lstm_ref_run_def Let_def py_range_2 xs_def [symmetric] bind_res_eq_Inr
        jnp_stack_def split: prod.splits if_splits)
  from layer_scan_props [OF s0 i0] xs_ne
  have f: "length fwd = T" "last fwd = fst final0" "\<forall>m \<in> set fwd. same_shape m (h_0 ! 0)"
    by (simp_all add: lxs)
  from layer_scan_props [OF s1 i1] xs_ne
  have r: "length bwd = T" "hd bwd = fst final1" "\<forall>m \<in> set bwd. same_shape m (h_0 ! 1)"
    by (simp_all add: lxs)
  have fs: "mat_shape Bh H (fwd ! t)" if "t < T" for t
    using f(1,3) that h0(2) by (auto intro: same_shape_mat_shape)
  have rs: "mat_shape Bh H (bwd ! t)" if "t < T" for t
    using r(1,3) that h0(3) by (auto intro: same_shape_mat_shape)
  have seq': "seq' = map2 (map2 (@)) fwd bwd"
    using cat by (simp add: concatenate_last_def split: if_splits)
  have ls: "length seq' = T" using seq' f(1) r(1) by simp
  have row: "length (seq' ! t) = Bh" if "t < T" for t
    using that fs [OF that] rs [OF that] f(1) r(1) by (simp add: seq' mat_shape_def)
  have ent: "seq' ! t ! b = fwd ! t ! b @ bwd ! t ! b" if "t < T" "b < Bh" for t b
    using that fs [OF that(1)] rs [OF that(1)] f(1) r(1) by (simp add: seq' mat_shape_def)
  have el: "length (fwd ! t ! b) = H" "length (bwd ! t ! b) = H" if "t < T" "b < Bh" for t b
    using that fs [OF that(1)] rs [OF that(1)] by (simp_all add: mat_shape_def list_all_length)
  have sne: "seq' \<noteq> []" using ls x(3) by auto
  have ly: "length y = Bh"
    unfolding yy transpose_102_def
    by (rule transpose_rect_length [OF sne]) (simp add: ls row)
  have yb: "y ! b = map (\<lambda>t. seq' ! t ! b) [0..<T]" if "b < Bh" for b
  proof -
    have "transpose seq' ! b = map (\<lambda>t. seq' ! t ! b) [0..<length seq']"
      by (rule transpose_rect_nth(2) [OF sne _ that]) (simp add: ls row)
    then show ?thesis by (simp add: yy transpose_102_def ls)
  qed
  have main: "length (y ! b) = T
            \<and> (\<forall>t < T. length (y ! b ! t) = 2 * H)
            \<and> take H (last (y ! b)) = h_n ! 0 ! b
            \<and> drop H (hd (y ! b)) = h_n ! 1 ! b" if b: "b < Bh" for b
  proof -
    have T1: "T - 1 < T" "0 < T" using x(3) by simp_all
    have "[0..<T] \<noteq> []" using x(3) by simp
    then have "last (y ! b) = seq' ! (T - 1) ! b"
      using yb [OF b] x(3) by (simp add: last_map)
    then have la: "take H (last (y ! b)) = fwd ! (T - 1) ! b"
      using ent [OF T1(1) b] el [OF T1(1) b] by simp
    have "fwd \<noteq> []" using f(1) x(3) by auto
    then have "last fwd = fwd ! (T - 1)" using f(1) by (simp add: last_conv_nth)
    then have A: "take H (last (y ! b)) = h_n ! 0 ! b" using la f(2) hn by simp
    have "hd (y ! b) = seq' ! 0 ! b"
      using yb [OF b] x(3) by (simp add: hd_map upt_conv_Cons)
    then have hb: "drop H (hd (y ! b)) = bwd ! 0 ! b"
      using ent [OF T1(2) b] el [OF T1(2) b] by simp
    have "bwd \<noteq> []" using r(1) x(3) by auto
    then have "hd bwd = bwd ! 0" by (simp add: hd_conv_nth)
    then have Bq: "drop H (hd (y ! b)) = h_n ! 1 ! b" using hb r(2) hn by simp
    have "\<forall>t < T. length (y ! b ! t) = 2 * H"
      using yb [OF b] ent el b by simp
    with A Bq yb [OF b] show ?thesis by simp
  qed
  show ?thesis using hn ly main by simp
qed

lemma sigmoid_real_0: "sigmoid_real 0 = 1 / 2"
  by (simp add: sigmoid_real_def)

text \<open>
  A cell whose weights and biases are all zero, with one hidden unit: every
  gate pre-activation is 0, so \<open>c' = c / 2\<close> and \<open>h' = tanh (c / 2) / 2\<close>.
\<close>

lemma zero_cell:
  "lstm_cell real_runtime [[0], [0], [0], [0]] [[0], [0], [0], [0]] [0, 0, 0, 0] [0, 0, 0, 0]
      ([[h]], [[c]]) [[0]]
   = Inr (([[tanh (c / 2) / 2]], [[c / 2]]), [[tanh (c / 2) / 2]])"
  by (simp add: lstm_cell_def jnp_split4_def gate_input_def matmul_nt_def broadcast2_def
      broadcast1_def real_runtime_def sigmoid_real_0 Let_def)

text \<open>
  One bidirectional layer, one hidden unit, batch size 1, two time steps,
  zero weights, the reverse direction starting from cell state 1.
\<close>

lemma bidirectional_example:
 "lstm_ref real_runtime [[[0], [0]]] [[[0]], [[0]]] [[[0]], [[1]]]
     [0 \<mapsto> [[0], [0], [0], [0]], 1 \<mapsto> [[0], [0], [0], [0]]]
     [0 \<mapsto> [[0], [0], [0], [0]], 1 \<mapsto> [[0], [0], [0], [0]]]
     [0 \<mapsto> [0, 0, 0, 0], 1 \<mapsto> [0, 0, 0, 0]]
     [0 \<mapsto> [0, 0, 0, 0], 1 \<mapsto> [0, 0, 0, 0]]
     [2 :: int] 1 1 1 0 True
   = Inr ([[[0, tanh (1 / 4) / 2], [0, tanh (1 / 2) / 2]]],
          [[[0]], [[tanh (1 / 4) / 2]]], [[[0]], [[1 / 4]]])"
  by (simp add: lstm_ref_def lstm_ref_run_def py_range_2 layer_scan_def
      dict_get_def jnp_index_def lax_scan_def zero_cell same_shape_def concatenate_last_def
      jnp_stack_def transpose_102_def transpose.simps Let_def)

text \<open>
  C7, as the code behaves.  For one bidirectional layer on an input of
  \<open>T \<ge> 1\<close> time steps, with initial states of the documented shape, the
  output has feature dimension \<open>2 * hidden_size\<close>; at the last time step its
  first \<open>hidden_size\<close> features are the final hidden state of the forward
  pseudo-layer, \<open>h_n[0]\<close>; and at the first time step its last
  \<open>hidden_size\<close> features are the final hidden state of the reverse
  pseudo-layer, \<open>h_n[1]\<close>, which has scanned the sequence from its end.
\<close>

theorem bidirectional_concatenation:
  assumes "lstm_ref rt x h_0 c_0 W_ih W_hh b_ih b_hh seq_lengths input_size hidden_size 1 0 True
             = Inr (y, h_n, c_n)"
    and "mat_shape B T x" "0 < B" "0 < T"
    and "length h_0 = 2"
    and "mat_shape B (nat hidden_size) (h_0 ! 0)" "mat_shape B (nat hidden_size) (h_0 ! 1)"
  shows "length h_n = 2 \<and> length y = B
       \<and> (\<forall>b < B. length (y ! b) = T
            \<and> (\<forall>t < T. length (y ! b ! t) = 2 * nat hidden_size)
            \<and> take (nat hidden_size) (last (y ! b)) = h_n ! 0 ! b
            \<and> drop (nat hidden_size) (hd (y ! b)) = h_n ! 1 ! b)"
proof -
  from assms(1)
  have "lstm_ref_run rt x h_0 c_0 (W_ih, W_hh, b_ih, b_hh) 1 True = Inr (y, h_n, c_n)"
    by (simp add: lstm_ref_def split: sum.splits)
  from bidirectional_single_layer [OF this assms(2-7)] show ?thesis .
qed

theorem bidirectional_concatenation_witness:
  "lstm_ref real_runtime [[[0], [0]]] [[[0]], [[0]]] [[[0]], [[1]]]
     [0 \<mapsto> [[0], [0], [0], [0]], 1 \<mapsto> [[0], [0], [0], [0]]]
     [0 \<mapsto> [[0], [0], [0], [0]], 1 \<mapsto> [[0], [0], [0], [0]]]
     [0 \<mapsto> [0, 0, 0, 0], 1 \<mapsto> [0, 0, 0, 0]]
     [0 \<mapsto> [0, 0, 0, 0], 1 \<mapsto> [0, 0, 0, 0]]
     [2 :: int] 1 1 1 0 True
   = Inr ([[[0, tanh (1 / 4) / 2], [0, tanh (1 / 2) / 2]]],
          [[[0]], [[tanh (1 / 4) / 2]]], [[[0]], [[1 / 4]]])
   \<and> mat_shape 1 2 [[[0 :: real], [0]]] \<and> (0 :: nat) < 1 \<and> (0 :: nat) < 2
   \<and> length [[[0 :: real]], [[0]]] = 2
   \<and> mat_shape 1 (nat 1) ([[[0 :: real]], [[0]]] ! 0)
   \<and> mat_shape 1 (nat 1) ([[[0 :: real]], [[0]]] ! 1)
   \<and> length [[[0, tanh (1 / 4) / 2], [0, tanh (1 / 2) / 2 :: real]]] = 1
   \<and> take (nat 1) (last ([[[0, tanh (1 / 4) / 2], [0, tanh (1 / 2) / 2 :: real]]] ! 0))
       = [[[0]], [[tanh (1 / 4) / 2]]] ! 0 ! 0
   \<and> drop (nat 1) (hd ([[[0, tanh (1 / 4) / 2], [0, tanh (1 / 2) / 2 :: real]]] ! 0))
       = [[[0]], [[tanh (1 / 4) / 2]]] ! 1 ! 0"
proof -
  have s: "mat_shape 1 2 [[[0 :: real], [0]]]" "(0 :: nat) < 1" "(0 :: nat) < 2"
    "length [[[0 :: real]], [[0]]] = 2"
    "mat_shape 1 (nat 1) ([[[0 :: real]], [[0]]] ! 0)"
    "mat_shape 1 (nat 1) ([[[0 :: real]], [[0]]] ! 1)"
    by (simp_all add: mat_shape_def)
  from bidirectional_concatenation [OF bidirectional_example s]
  show ?thesis using bidirectional_example s by simp
qed

text \<open>
  C7, as stated, fails on that run: at the last time step the second half
  of the output is what the reverse pseudo-layer produced on its first
  step, \<open>tanh (1/2) / 2\<close>, while its final hidden state is
  \<open>tanh (1/4) / 2\<close>.
\<close>

theorem bidirectional_last_step_counterexample:
  "lstm_ref real_runtime [[[0], [0]]] [[[0]], [[0]]] [[[0]], [[1]]]
     [0 \<mapsto> [[0], [0], [0], [0]], 1 \<mapsto> [[0], [0], [0], [0]]]
     [0 \<mapsto> [[0], [0], [0], [0]], 1 \<mapsto> [[0], [0], [0], [0]]]
     [0 \<mapsto> [0, 0, 0, 0], 1 \<mapsto> [0, 0, 0, 0]]
     [0 \<mapsto> [0, 0, 0, 0], 1 \<mapsto> [0, 0, 0, 0]]
     [2 :: int] 1 1 1 0 True
   = Inr ([[[0, tanh (1 / 4) / 2], [0, tanh (1 / 2) / 2]]],
          [[[0]], [[tanh (1 / 4) / 2]]], [[[0]], [[1 / 4]]])
   \<and> drop 1 (last ([[[0, tanh (1 / 4) / 2], [0, tanh (1 / 2) / 2 :: real]]] ! 0))
       \<noteq> [[[0]], [[tanh (1 / 4) / 2]]] ! 1 ! 0"
  using bidirectional_example by simp

section \<open>Two unidirectional layers\<close>

lemma mat_eqI:
  assumes "mat_shape r c A" "\<And>i j. i < r \<Longrightarrow> j < c \<Longrightarrow> A ! i ! j = f i j"
  shows "A = map (\<lambda>i. map (\<lambda>j. f i j) [0..<c]) [0..<r]"
proof (rule nth_equalityI)
  show "length A = length (map (\<lambda>i. map (\<lambda>j. f i j) [0..<c]) [0..<r])"
    using assms(1) by (simp add: mat_shape_def)
next
  fix i assume "i < length A"
  then have i: "i < r" using assms(1) by (simp add: mat_shape_def)
  have "A ! i = map (\<lambda>j. f i j) [0..<c]"
  proof (rule nth_equalityI)
    show "length (A ! i) = length (map (\<lambda>j. f i j) [0..<c])"
      using mat_shape_nth [OF assms(1) i] by simp
  next
    fix j assume "j < length (A ! i)"
    then have "j < c" using mat_shape_nth [OF assms(1) i] by simp
    then show "A ! i ! j = map (\<lambda>j. f i j) [0..<c] ! j" using assms(2) [OF i] by simp
  qed
  then show "A ! i = map (\<lambda>i. map (\<lambda>j. f i j) [0..<c]) [0..<r] ! i" using i by simp
qed

lemma mat_shape_table: "mat_shape r c (map (\<lambda>i. map (\<lambda>j. f i j) [0..<c]) [0..<r])"
  by (rule mat_shapeI) simp_all

lemma same_shape_of_mat_shape: "mat_shape r c A \<Longrightarrow> mat_shape r c B \<Longrightarrow> same_shape A B"
proof -
  assume a: "mat_shape r c A" "mat_shape r c B"
  have "map length A = replicate r c" "map length B = replicate r c"
    using a by (auto simp: mat_shape_def list_all_iff intro!: replicate_eqI)
  then show ?thesis by (simp add: same_shape_def)
qed

text \<open>On arrays of the documented shapes, the cell is one step of the recurrence.\<close>

lemma lstm_cell_recurrence_step:
  assumes x: "mat_shape B I x" and h: "mat_shape B H h" and c: "mat_shape B H c"
    and p: "layer_params_shape H I (W_ih, W_hh, b_ih, b_hh)"
  shows "lstm_cell rt W_ih W_hh b_ih b_hh (h, c) x
         = Inr (recurrence_step rt (W_ih, W_hh, b_ih, b_hh) H (h, c) x,
                fst (recurrence_step rt (W_ih, W_hh, b_ih, b_hh) H (h, c) x))"
    and "mat_shape B H (fst (recurrence_step rt (W_ih, W_hh, b_ih, b_hh) H (h, c) x))"
    and "mat_shape B H (snd (recurrence_step rt (W_ih, W_hh, b_ih, b_hh) H (h, c) x))"
proof -
  have lh: "length h = B" using h by (simp add: mat_shape_def)
  from p have ps: "mat_shape (4 * H) I W_ih" "mat_shape (4 * H) H W_hh"
    "length b_ih = 4 * H" "length b_hh = 4 * H"
    by (simp_all add: layer_params_shape_def)
  from lstm_cell_ok [OF x h c ps, of rt]
  obtain h' c' where
    run: "lstm_cell rt W_ih W_hh b_ih b_hh (h, c) x = Inr ((h', c'), h')"
    and sh: "mat_shape B H h'" "mat_shape B H c'"
    and ent: "\<forall>b < B. \<forall>j < H.
            c' ! b ! j = cell_entry_c rt x h c W_ih W_hh b_ih b_hh H b j
          \<and> h' ! b ! j = cell_entry_h rt x h c W_ih W_hh b_ih b_hh H b j"
    by blast
  have eh: "h' = map (\<lambda>b. map (\<lambda>j. cell_entry_h rt x h c W_ih W_hh b_ih b_hh H b j) [0..<H]) [0..<B]"
    by (rule mat_eqI [OF sh(1)]) (use ent in simp)
  have ec: "c' = map (\<lambda>b. map (\<lambda>j. cell_entry_c rt x h c W_ih W_hh b_ih b_hh H b j) [0..<H]) [0..<B]"
    by (rule mat_eqI [OF sh(2)]) (use ent in simp)
  have st: "recurrence_step rt (W_ih, W_hh, b_ih, b_hh) H (h, c) x = (h', c')"
    by (simp add: recurrence_step_def lh eh ec)
  show "lstm_cell rt W_ih W_hh b_ih b_hh (h, c) x
         = Inr (recurrence_step rt (W_ih, W_hh, b_ih, b_hh) H (h, c) x,
                fst (recurrence_step rt (W_ih, W_hh, b_ih, b_hh) H (h, c) x))"
    by (simp add: st run)
  show "mat_shape B H (fst (recurrence_step rt (W_ih, W_hh, b_ih, b_hh) H (h, c) x))"
    "mat_shape B H (snd (recurrence_step rt (W_ih, W_hh, b_ih, b_hh) H (h, c) x))"
    by (simp_all add: st sh)
qed

text \<open>On a sequence of the documented shape, the scan is the recurrence.\<close>

lemma scan_forward_recurrence:
  assumes "\<forall>x_t \<in> set xs. mat_shape B I x_t"
    and "mat_shape B H h" "mat_shape B H c"
    and p: "layer_params_shape H I (W_ih, W_hh, b_ih, b_hh)"
  shows "scan_forward (lstm_cell rt W_ih W_hh b_ih b_hh) (h, c) xs
         = Inr (recurrence (recurrence_step rt (W_ih, W_hh, b_ih, b_hh) H) (h, c) xs)
       \<and> length (snd (recurrence (recurrence_step rt (W_ih, W_hh, b_ih, b_hh) H) (h, c) xs))
           = length xs
       \<and> (\<forall>y \<in> set (snd (recurrence (recurrence_step rt (W_ih, W_hh, b_ih, b_hh) H) (h, c) xs)).
            mat_shape B H y)
       \<and> mat_shape B H
            (fst (fst (recurrence (recurrence_step rt (W_ih, W_hh, b_ih, b_hh) H) (h, c) xs)))
       \<and> mat_shape B H
            (snd (fst (recurrence (recurrence_step rt (W_ih, W_hh, b_ih, b_hh) H) (h, c) xs)))"
  using assms(1-3)
proof (induction xs arbitrary: h c)
  case Nil
  then show ?case by simp
next
  case (Cons x_t xs)
  let ?step = "recurrence_step rt (W_ih, W_hh, b_ih, b_hh) H"
  obtain h' c' where st: "?step (h, c) x_t = (h', c')" by (cases "?step (h, c) x_t")
  have x: "mat_shape B I x_t" using Cons.prems(1) by simp
  from lstm_cell_recurrence_step [OF x Cons.prems(2,3) p, of rt]
  have cell: "lstm_cell rt W_ih W_hh b_ih b_hh (h, c) x_t = Inr ((h', c'), h')"
    and sh: "mat_shape B H h'" "mat_shape B H c'"
    by (simp_all add: st)
  have ss: "same_shape h' h" "same_shape c' c"
    using sh Cons.prems(2,3) by (auto intro: same_shape_of_mat_shape)
  have rest: "\<forall>x_t \<in> set xs. mat_shape B I x_t" using Cons.prems(1) by simp
  obtain final ys where r: "recurrence ?step (h', c') xs = (final, ys)"
    by (cases "recurrence ?step (h', c') xs")
  from Cons.IH [OF rest sh] r
  have ih: "scan_forward (lstm_cell rt W_ih W_hh b_ih b_hh) (h', c') xs = Inr (final, ys)"
    "length ys = length xs" "\<forall>y \<in> set ys. mat_shape B H y"
    "mat_shape B H (fst final)" "mat_shape B H (snd final)"
    by simp_all
  show ?case
    by (simp add: cell ss ih st r sh)
qed

text \<open>Exchanging the first two axes of a non-empty rectangular array.\<close>

lemma transpose_102_swap_axes:
  assumes "a \<noteq> []" "\<And>row. row \<in> set a \<Longrightarrow> length row = n"
  shows "transpose_102 a = swap_axes a"
proof -
  have "transpose a = map (\<lambda>i. map (\<lambda>j. a ! j ! i) [0..<length a]) [0..<n]"
    by (rule transpose_rectangle) (use assms in simp_all)
  moreover have "map (\<lambda>j. a ! j ! i) [0..<length a] = map (\<lambda>row. row ! i) a" for i
    by (rule nth_equalityI) simp_all
  moreover have "length (hd a) = n" using assms by (cases a) simp_all
  ultimately show ?thesis by (simp add: transpose_102_def swap_axes_def)
qed

lemma swap_axes_shape:
  assumes "seq_shape B T I x" "0 < B"
  shows "length (swap_axes x) = T" and "\<forall>x_t \<in> set (swap_axes x). mat_shape B I x_t"
proof -
  have lx: "length x = B" and rows: "\<And>row. row \<in> set x \<Longrightarrow> mat_shape T I row"
    using assms(1) by (simp_all add: seq_shape_def list_all_iff)
  have "x \<noteq> []" using lx assms(2) by auto
  then have "hd x \<in> set x" by simp
  then have T: "length (hd x) = T" using rows by (simp add: mat_shape_def)
  show "length (swap_axes x) = T" by (simp add: swap_axes_def T)
  show "\<forall>x_t \<in> set (swap_axes x). mat_shape B I x_t"
  proof
    fix x_t assume "x_t \<in> set (swap_axes x)"
    then obtain t where t: "t < T" and xt: "x_t = map (\<lambda>row. row ! t) x"
      by (auto simp: swap_axes_def T)
    show "mat_shape B I x_t"
    proof (rule mat_shapeI)
      show "length x_t = B" by (simp add: xt lx)
    next
      fix b assume "b < B"
      then have "x ! b \<in> set x" using lx by simp
      from rows [OF this] t have "length (x ! b ! t) = I" by (simp add: mat_shape_nth)
      then show "length (x_t ! b) = I" using \<open>b < B\<close> lx by (simp add: xt)
    qed
  qed
qed

lemma two_layer_run:
  "lstm_ref_run rt x h_0 c_0 params 2 False =
     (case layer_scan rt h_0 c_0 params 0 (transpose_102 x) False of
        Inl e \<Rightarrow> Inl e
      | Inr ((h_t0, c_t0), ys0) \<Rightarrow>
          (case layer_scan rt h_0 c_0 params 1 ys0 False of
             Inl e \<Rightarrow> Inl e
           | Inr ((h_t1, c_t1), ys1) \<Rightarrow>
               bind_res (jnp_stack [h_t0, h_t1]) (\<lambda>h_n.
               bind_res (jnp_stack [c_t0, c_t1]) (\<lambda>c_n.
               Inr (transpose_102 ys1, h_n, c_n)))))"
  by (simp add: lstm_ref_run_def Let_def py_range_2 split: sum.splits prod.splits)

lemma jnp_stack_two: "same_shape b a \<Longrightarrow> jnp_stack [a, b] = Inr [a, b]"
  by (simp add: jnp_stack_def same_shape_def)

text \<open>
  C8. For two unidirectional layers on arrays of the documented shapes, with
  a non-empty batch and at least one time step, \<open>lstm_ref\<close> returns, and what
  it returns is the layer recurrence of the specification: the recurrence of
  layer 0 from \<open>(h_0[0], c_0[0])\<close> over \<open>x\<close>, then the recurrence of layer 1
  from \<open>(h_0[1], c_0[1])\<close> over the hidden sequence of layer 0; the output is
  the hidden sequence of layer 1 and the final states of the two recurrences
  are \<open>h_n[0], c_n[0]\<close> and \<open>h_n[1], c_n[1]\<close>.  Both sides are evaluated in the
  scalar arithmetic of the one call; nothing is said about two separately
  compiled calls, whose floating-point results can differ in the last place.
\<close>

theorem two_layer_chaining:
  assumes x: "seq_shape B T (nat input_size) x" "0 < B" "0 < T"
    and st: "seq_shape 2 B (nat hidden_size) h_0" "seq_shape 2 B (nat hidden_size) c_0"
    and l0: "W_ih 0 = Some W0" "W_hh 0 = Some U0" "b_ih 0 = Some p0" "b_hh 0 = Some q0"
      "layer_params_shape (nat hidden_size) (nat input_size) (W0, U0, p0, q0)"
    and l1: "W_ih 1 = Some W1" "W_hh 1 = Some U1" "b_ih 1 = Some p1" "b_hh 1 = Some q1"
      "layer_params_shape (nat hidden_size) (nat hidden_size) (W1, U1, p1, q1)"
  shows "lstm_ref rt x h_0 c_0 W_ih W_hh b_ih b_hh seq_lengths input_size hidden_size 2 0 False
         = Inr (two_layer_recurrence rt x h_0 c_0 (W0, U0, p0, q0) (W1, U1, p1, q1)
                  (nat hidden_size))"
proof -
  let ?H = "nat hidden_size"
  let ?I = "nat input_size"
  let ?s0 = "recurrence_step rt (W0, U0, p0, q0) ?H"
  let ?s1 = "recurrence_step rt (W1, U1, p1, q1) ?H"
  have lh: "length h_0 = 2" "length c_0 = 2"
    using st by (simp_all add: seq_shape_def)
  have sh: "mat_shape B ?H (h_0 ! 0)" "mat_shape B ?H (h_0 ! 1)"
    "mat_shape B ?H (c_0 ! 0)" "mat_shape B ?H (c_0 ! 1)"
    using st by (simp_all add: seq_shape_def list_all_length)
  have ne: "h_0 \<noteq> []" "c_0 \<noteq> []" using lh by auto
  have ih: "jnp_index h_0 0 = Inr (h_0 ! 0)" "jnp_index c_0 0 = Inr (c_0 ! 0)"
    "jnp_index h_0 1 = Inr (h_0 ! 1)" "jnp_index c_0 1 = Inr (c_0 ! 1)"
    using ne lh by (simp_all add: jnp_index_0 jnp_index_1)
  have lx: "length x = B" and rows: "\<And>row. row \<in> set x \<Longrightarrow> length row = T"
    using x(1) by (simp_all add: seq_shape_def list_all_iff mat_shape_def)
  have "x \<noteq> []" using lx x(2) by auto
  then have tx: "transpose_102 x = swap_axes x"
    by (rule transpose_102_swap_axes) (rule rows)
  obtain final0 ys0 where r0: "recurrence ?s0 (h_0 ! 0, c_0 ! 0) (swap_axes x) = (final0, ys0)"
    by (cases "recurrence ?s0 (h_0 ! 0, c_0 ! 0) (swap_axes x)")
  from scan_forward_recurrence [OF swap_axes_shape(2) [OF x(1,2)] sh(1,3) l0(5), of rt] r0
  have sc0: "scan_forward (lstm_cell rt W0 U0 p0 q0) (h_0 ! 0, c_0 ! 0) (swap_axes x)
             = Inr (final0, ys0)"
    and ly0: "length ys0 = length (swap_axes x)"
    and sy0: "\<forall>y \<in> set ys0. mat_shape B ?H y"
    and sf0: "mat_shape B ?H (fst final0)" "mat_shape B ?H (snd final0)"
    by simp_all
  have A: "layer_scan rt h_0 c_0 (W_ih, W_hh, b_ih, b_hh) 0 (swap_axes x) False
           = Inr (final0, ys0)"
    by (simp add: layer_scan_def dict_get_def l0 ih lax_scan_def sc0)
  obtain final1 ys1 where r1: "recurrence ?s1 (h_0 ! 1, c_0 ! 1) ys0 = (final1, ys1)"
    by (cases "recurrence ?s1 (h_0 ! 1, c_0 ! 1) ys0")
  from scan_forward_recurrence [OF sy0 sh(2,4) l1(5), of rt] r1
  have sc1: "scan_forward (lstm_cell rt W1 U1 p1 q1) (h_0 ! 1, c_0 ! 1) ys0 = Inr (final1, ys1)"
    and ly1: "length ys1 = length ys0"
    and sy1: "\<forall>y \<in> set ys1. mat_shape B ?H y"
    and sf1: "mat_shape B ?H (fst final1)" "mat_shape B ?H (snd final1)"
    by simp_all
  have Bq: "layer_scan rt h_0 c_0 (W_ih, W_hh, b_ih, b_hh) 1 ys0 False = Inr (final1, ys1)"
    by (simp add: layer_scan_def dict_get_def l1 ih lax_scan_def sc1 del: One_nat_def)
  have "length ys1 = T" using ly1 ly0 swap_axes_shape(1) [OF x(1,2)] by simp
  then have "ys1 \<noteq> []" using x(3) by auto
  then have ty: "transpose_102 ys1 = swap_axes ys1"
    by (rule transpose_102_swap_axes) (use sy1 in \<open>simp add: mat_shape_def\<close>)
  have k1: "jnp_stack [fst final0, fst final1] = Inr [fst final0, fst final1]"
    by (rule jnp_stack_two) (rule same_shape_of_mat_shape [OF sf1(1) sf0(1)])
  have k2: "jnp_stack [snd final0, snd final1] = Inr [snd final0, snd final1]"
    by (rule jnp_stack_two) (rule same_shape_of_mat_shape [OF sf1(2) sf0(2)])
  obtain h_t0 c_t0 where f0: "final0 = (h_t0, c_t0)" by (cases final0)
  obtain h_t1 c_t1 where f1: "final1 = (h_t1, c_t1)" by (cases final1)
  have "lstm_ref_run rt x h_0 c_0 (W_ih, W_hh, b_ih, b_hh) 2 False
        = Inr (swap_axes ys1, [fst final0, fst final1], [snd final0, snd final1])"
    using k1 k2 by (simp add: two_layer_run tx A Bq f0 f1 ty)
  moreover have "two_layer_recurrence rt x h_0 c_0 (W0, U0, p0, q0) (W1, U1, p1, q1) ?H
        = (swap_axes ys1, [fst final0, fst final1], [snd final0, snd final1])"
    by (simp add: two_layer_recurrence_def r0 r1 del: One_nat_def)
  ultimately show ?thesis by (simp add: lstm_ref_def)
qed

theorem two_layer_chaining_witness:
  "seq_shape 1 2 (nat 1) [[[1], [2 :: real]]] \<and> (0 :: nat) < 1 \<and> (0 :: nat) < 2
   \<and> seq_shape 2 1 (nat 1) [[[0 :: real]], [[0]]]
   \<and> layer_params_shape (nat 1) (nat 1)
        ([[0], [0], [1], [0 :: real]], [[0], [0], [0], [0]], [0, 0, 0, 0], [0, 0, 0, 0])
   \<and> lstm_ref real_runtime [[[1], [2]]] [[[0]], [[0]]] [[[0]], [[0]]]
        [0 \<mapsto> [[0], [0], [1], [0]], 1 \<mapsto> [[0], [0], [1], [0]]]
        [0 \<mapsto> [[0], [0], [0], [0]], 1 \<mapsto> [[0], [0], [0], [0]]]
        [0 \<mapsto> [0, 0, 0, 0], 1 \<mapsto> [0, 0, 0, 0]]
        [0 \<mapsto> [0, 0, 0, 0], 1 \<mapsto> [0, 0, 0, 0]]
        [2 :: int] 1 1 2 0 False
     = Inr ([[[tanh (tanh (tanh (tanh 1 / 2) / 2) / 2) / 2],
              [tanh (tanh (tanh (tanh 1 / 2) / 2) / 4
                     + tanh (tanh (tanh 1 / 4 + tanh 2 / 2) / 2) / 2) / 2]]],
            [[[tanh (tanh 1 / 4 + tanh 2 / 2) / 2]],
             [[tanh (tanh (tanh (tanh 1 / 2) / 2) / 4
                     + tanh (tanh (tanh 1 / 4 + tanh 2 / 2) / 2) / 2) / 2]]],
            [[[tanh 1 / 4 + tanh 2 / 2]],
             [[tanh (tanh (tanh 1 / 2) / 2) / 4
                + tanh (tanh (tanh 1 / 4 + tanh 2 / 2) / 2) / 2]]])"
proof -
  let ?W = "[[0], [0], [1], [0 :: real]]"
  let ?U = "[[0], [0], [0], [0 :: real]]"
  let ?p = "[0, 0, 0, 0 :: real]"
  have s: "seq_shape 1 2 (nat 1) [[[1], [2 :: real]]]" "(0 :: nat) < 1" "(0 :: nat) < 2"
    "seq_shape 2 1 (nat 1) [[[0 :: real]], [[0]]]" "seq_shape 2 1 (nat 1) [[[0 :: real]], [[0]]]"
    by (simp_all add: seq_shape_def mat_shape_def)
  have l: "layer_params_shape (nat 1) (nat 1) (?W, ?U, ?p, ?p)"
    by (simp add: layer_params_shape_def mat_shape_def)
  have d0: "[0 \<mapsto> ?W, 1 \<mapsto> ?W] (0 :: int) = Some ?W" "[0 \<mapsto> ?U, 1 \<mapsto> ?U] (0 :: int) = Some ?U"
    "[0 \<mapsto> ?p, 1 \<mapsto> ?p] (0 :: int) = Some ?p" "[0 \<mapsto> ?p, 1 \<mapsto> ?p] (0 :: int) = Some ?p"
    by simp_all
  have d1: "[0 \<mapsto> ?W, 1 \<mapsto> ?W] (1 :: int) = Some ?W" "[0 \<mapsto> ?U, 1 \<mapsto> ?U] (1 :: int) = Some ?U"
    "[0 \<mapsto> ?p, 1 \<mapsto> ?p] (1 :: int) = Some ?p" "[0 \<mapsto> ?p, 1 \<mapsto> ?p] (1 :: int) = Some ?p"
    by simp_all
  have v: "two_layer_recurrence real_runtime [[[1], [2]]] [[[0]], [[0]]] [[[0]], [[0]]]
       (?W, ?U, ?p, ?p) (?W, ?U, ?p, ?p) (nat 1)
     = ([[[tanh (tanh (tanh (tanh 1 / 2) / 2) / 2) / 2],
              [tanh (tanh (tanh (tanh 1 / 2) / 2) / 4
                     + tanh (tanh (tanh 1 / 4 + tanh 2 / 2) / 2) / 2) / 2]]],
            [[[tanh (tanh 1 / 4 + tanh 2 / 2) / 2]],
             [[tanh (tanh (tanh (tanh 1 / 2) / 2) / 4
                     + tanh (tanh (tanh 1 / 4 + tanh 2 / 2) / 2) / 2) / 2]]],
            [[[tanh 1 / 4 + tanh 2 / 2]],
             [[tanh (tanh (tanh 1 / 2) / 2) / 4
                + tanh (tanh (tanh 1 / 4 + tanh 2 / 2) / 2) / 2]]])"
    by (simp add: two_layer_recurrence_def swap_axes_def recurrence_step_def cell_entry_h_def
      cell_entry_c_def gate_entry_def real_runtime_def sigmoid_real_def Let_def upt_conv_Cons
      del: One_nat_def)
  from two_layer_chaining [OF s d0 l d1 l, of real_runtime "[2 :: int]"]
  have "lstm_ref real_runtime [[[1], [2]]] [[[0]], [[0]]] [[[0]], [[0]]]
        [0 \<mapsto> ?W, 1 \<mapsto> ?W] [0 \<mapsto> ?U, 1 \<mapsto> ?U] [0 \<mapsto> ?p, 1 \<mapsto> ?p] [0 \<mapsto> ?p, 1 \<mapsto> ?p]
        [2 :: int] 1 1 2 0 False
     = Inr (two_layer_recurrence real_runtime [[[1], [2]]] [[[0]], [[0]]] [[[0]], [[0]]]
       (?W, ?U, ?p, ?p) (?W, ?U, ?p, ?p) (nat 1))" .
  then show ?thesis unfolding v using s l by (intro conjI)
qed

end
